theory Spec2Isabelle
  imports Complex_Main
begin

section \<open>Shots and the session store\<close>

text \<open>
  A shot as the timeline and the player read it (\<^verbatim>\<open>store.inferenceResults\<close> holds an
  array of them). Times are JavaScript numbers; the code only compares and subtracts them,
  and they are modelled as reals (no NaN). \<^verbatim>\<open>is_scene_break\<close> is used for its truth
  value only.
\<close>

record shot =
  shot_id :: string
  start_time :: real
  end_time :: real
  is_scene_break :: bool

section \<open>Scene grouping (inference\_timeline.js, renderTimeline)\<close>

text \<open>
  What \<^verbatim>\<open>injectSceneBlock\<close> adds to the grid: one header (scene index, number of
  shots, duration from the head's start to the tail's end) followed by the cards of its
  shots. The markup of header and cards is presentation and is not modelled.
\<close>

record scene_block =
  scene_index :: nat
  scene_shots :: "shot list"
  scene_duration :: real

definition injectSceneBlock :: "scene_block list \<Rightarrow> shot list \<Rightarrow> nat \<Rightarrow> scene_block list" where
  "injectSceneBlock container shots index =
     (if shots = [] then container
      else container @
        [\<lparr>scene_index = index, scene_shots = shots,
          scene_duration = end_time (last shots) - start_time (hd shots)\<rparr>])"

text \<open>
  The body of the \<^verbatim>\<open>forEach\<close> callback, run over the remaining shots; the state is
  the grid, \<^verbatim>\<open>sceneBuffer\<close> and \<^verbatim>\<open>sceneCount\<close>, and \<open>idx\<close> is the index of
  the shot at the head.
\<close>

fun forEach_shot ::
  "shot list \<Rightarrow> nat \<Rightarrow> scene_block list \<times> shot list \<times> nat \<Rightarrow> scene_block list \<times> shot list \<times> nat"
where
  "forEach_shot [] idx acc = acc"
| "forEach_shot (s # rest) idx (grid, sceneBuffer, sceneCount) =
     (if is_scene_break s \<and> idx \<noteq> 0
      then forEach_shot rest (idx + 1)
             (injectSceneBlock grid sceneBuffer sceneCount, [s], sceneCount + 1)
      else forEach_shot rest (idx + 1) (grid, sceneBuffer @ [s], sceneCount))"

text \<open>
  \<^verbatim>\<open>renderTimeline\<close>: nothing happens without the grid element (\<open>None\<close>); otherwise
  the grid is emptied, the shots are scanned and the last buffer is flushed.
\<close>

definition renderTimeline :: "scene_block list option \<Rightarrow> shot list \<Rightarrow> scene_block list option" where
  "renderTimeline gridContainer results =
     (case gridContainer of
        None \<Rightarrow> None
      | Some _ \<Rightarrow>
          (case forEach_shot results 0 ([], [], 1) of
             (grid, sceneBuffer, sceneCount) \<Rightarrow>
               if length sceneBuffer > 0
               then Some (injectSceneBlock grid sceneBuffer sceneCount)
               else Some grid))"

text \<open>
  The grouping as the specification words it: the buffer opens with shot 0 whatever its
  flag; a later shot with the flag closes the buffer and opens the next one, a later shot
  without it joins the buffer; the last buffer is flushed at the end.
\<close>

fun scan_scenes :: "shot list \<Rightarrow> shot list \<Rightarrow> shot list list" where
  "scan_scenes buffer [] = [buffer]"
| "scan_scenes buffer (s # rest) =
     (if is_scene_break s then buffer # scan_scenes [s] rest
      else scan_scenes (buffer @ [s]) rest)"

fun groupScenes_spec :: "shot list \<Rightarrow> shot list list" where
  "groupScenes_spec [] = []"
| "groupScenes_spec (s # rest) = scan_scenes [s] rest"

text \<open>The scenes that a call of \<^verbatim>\<open>renderTimeline\<close> leaves in an existing grid.\<close>

definition groupScenes :: "shot list \<Rightarrow> shot list list" where
  "groupScenes results =
     (case renderTimeline (Some []) results of
        None \<Rightarrow> []
      | Some grid \<Rightarrow> map scene_shots grid)"

section \<open>Player synchronisation and navigation (player\_view.js)\<close>

text \<open>\<^verbatim>\<open>Array.prototype.findIndex\<close>: the first index whose element passes, or -1.\<close>

fun findIndex_from :: "('a \<Rightarrow> bool) \<Rightarrow> 'a list \<Rightarrow> int \<Rightarrow> int" where
  "findIndex_from p [] i = -1"
| "findIndex_from p (x # xs) i = (if p x then i else findIndex_from p xs (i + 1))"

definition findIndex :: "('a \<Rightarrow> bool) \<Rightarrow> 'a list \<Rightarrow> int" where
  "findIndex p xs = findIndex_from p xs 0"

text \<open>The range scan of the \<^verbatim>\<open>ontimeupdate\<close> handler.\<close>

definition under_playhead :: "real \<Rightarrow> shot \<Rightarrow> bool" where
  "under_playhead t s \<longleftrightarrow> t \<ge> start_time s \<and> t < end_time s"

definition findActiveAt :: "shot list \<Rightarrow> real \<Rightarrow> int" where
  "findActiveAt results t = findIndex (under_playhead t) results"

text \<open>
  \<^verbatim>\<open>store\<close> (store.js) and the two module variables of player\_view.js. A media
  element is reduced to what the navigation reads and writes: its playhead and whether
  it is paused. \<open>None\<close> is JavaScript's \<^verbatim>\<open>null\<close>.
\<close>

record store =
  videoFile :: "string option"
  videoUrl :: "string option"
  activeSessionId :: "string option"
  inferenceResults :: "shot list"
  currentShotIndex :: int
  totalInferenceTime :: string
  activeModelName :: string

definition initial_store :: store where
  "initial_store =
     \<lparr>videoFile = None, videoUrl = None, activeSessionId = None, inferenceResults = [],
      currentShotIndex = -1, totalInferenceTime = ''0.0s'', activeModelName = ''NONE''\<rparr>"

definition reset :: "store \<Rightarrow> store" where
  "reset st =
     st\<lparr>videoFile := None, videoUrl := None, activeSessionId := None, inferenceResults := [],
        currentShotIndex := -1, totalInferenceTime := ''0.0s'', activeModelName := ''NONE''\<rparr>"

record video_el =
  currentTime :: real
  paused :: bool

record overlay_el =
  textContent :: string
  display :: string

record page =
  store :: store
  videoPlayer :: "video_el option"
  overlay :: "overlay_el option"

text \<open>A call of \<^verbatim>\<open>updateActiveHighlight(id)\<close>: the selection-changed notification.\<close>

datatype player_event = UpdateActiveHighlight string

text \<open>
  The \<^verbatim>\<open>ontimeupdate\<close> handler that \<^verbatim>\<open>syncPlayer\<close> attaches (it attaches none
  without a player).
\<close>

definition ontimeupdate :: "page \<Rightarrow> page \<times> player_event list" where
  "ontimeupdate pg =
     (case videoPlayer pg of
        None \<Rightarrow> (pg, [])
      | Some v \<Rightarrow>
          (let t = currentTime v;
               shotIdx = findActiveAt (inferenceResults (store pg)) t
           in if shotIdx \<noteq> -1 \<and> shotIdx \<noteq> currentShotIndex (store pg)
              then (let activeShot = inferenceResults (store pg) ! nat shotIdx
                    in (pg\<lparr>store := (store pg)\<lparr>currentShotIndex := shotIdx\<rparr>,
                           overlay := map_option
                             (\<lambda>ov. ov\<lparr>textContent := shot_id activeShot, display := ''block''\<rparr>)
                             (overlay pg)\<rparr>,
                        [UpdateActiveHighlight (shot_id activeShot)]))
              else (pg, [])))"

text \<open>
  The common tail of the three navigation functions: move the playhead to the shot's
  start and, if the video is paused, highlight the shot by hand.
\<close>

definition jump_to :: "shot \<Rightarrow> video_el \<Rightarrow> page \<Rightarrow> page \<times> player_event list" where
  "jump_to targetShot v pg =
     (pg\<lparr>videoPlayer := Some (v\<lparr>currentTime := start_time targetShot\<rparr>)\<rparr>,
      if paused v then [UpdateActiveHighlight (shot_id targetShot)] else [])"

definition skipToShot :: "int \<Rightarrow> page \<Rightarrow> page \<times> player_event list" where
  "skipToShot offset pg =
     (case videoPlayer pg of
        None \<Rightarrow> (pg, [])
      | Some v \<Rightarrow>
          if length (inferenceResults (store pg)) = 0 then (pg, [])
          else (let newIdx = max 0 (min (currentShotIndex (store pg) + offset)
                                        (int (length (inferenceResults (store pg))) - 1));
                    targetShot = inferenceResults (store pg) ! nat newIdx
                in jump_to targetShot v pg))"

text \<open>The \<^verbatim>\<open>while\<close> loop of \<^verbatim>\<open>skipToScene\<close>: the index of the shot it stops at.\<close>

function scene_scan :: "shot list \<Rightarrow> int \<Rightarrow> int \<Rightarrow> int option" where
  "scene_scan results offset idx =
     (if idx \<ge> 0 \<and> idx < int (length results)
      then (if is_scene_break (results ! nat idx) then Some idx
            else scene_scan results offset (idx + (if offset > 0 then 1 else -1)))
      else None)"
  by pat_completeness auto
termination
  by (relation "measure (\<lambda>(results, offset, idx).
        if offset > 0 then nat (int (length results) - idx) else nat (idx + 1))") auto

definition skipToScene :: "int \<Rightarrow> page \<Rightarrow> page \<times> player_event list" where
  "skipToScene offset pg =
     (case videoPlayer pg of
        None \<Rightarrow> (pg, [])
      | Some v \<Rightarrow>
          if length (inferenceResults (store pg)) = 0 then (pg, [])
          else (case scene_scan (inferenceResults (store pg)) offset
                       (currentShotIndex (store pg) + offset) of
                  None \<Rightarrow> (pg, [])
                | Some idx \<Rightarrow> jump_to (inferenceResults (store pg) ! nat idx) v pg))"

definition seekToShot :: "shot \<Rightarrow> page \<Rightarrow> page \<times> player_event list" where
  "seekToShot sh pg =
     (case videoPlayer pg of
        None \<Rightarrow> (pg, [])
      | Some v \<Rightarrow> jump_to sh v pg)"

section \<open>Loading an archived session (session\_manager.js, hydrateSession)\<close>

text \<open>The outcome of an awaited request: the promise rejects with a message or resolves.\<close>

datatype 'a awaited = Rejected string | Resolved 'a

record session_data =
  shots :: "shot list"
  video_filename :: string

text \<open>
  The store writes of \<^verbatim>\<open>hydrateSession\<close>. What follows them in the source
  (\<^verbatim>\<open>initPlayer\<close>, \<^verbatim>\<open>syncPlayer\<close>, \<^verbatim>\<open>renderTimeline\<close>, \<^verbatim>\<open>updateHUD\<close>,
  \<^verbatim>\<open>toggleViewState\<close>) writes no field of the store; a rejected request is caught and
  reported with \<^verbatim>\<open>alert\<close>.
\<close>

definition hydrateSession :: "string \<Rightarrow> session_data awaited \<Rightarrow> store \<Rightarrow> store" where
  "hydrateSession sessionId response st =
     (case response of
        Rejected _ \<Rightarrow> st
      | Resolved data \<Rightarrow> st\<lparr>inferenceResults := shots data, activeSessionId := Some sessionId\<rparr>)"

section \<open>The console (ui/console.js)\<close>

text \<open>\<^verbatim>\<open>String.prototype.includes\<close> with a literal argument.\<close>

fun starts_with :: "string \<Rightarrow> string \<Rightarrow> bool" where
  "starts_with s [] = True"
| "starts_with [] (c # sub) = False"
| "starts_with (x # s) (c # sub) = (x = c \<and> starts_with s sub)"

fun str_includes :: "string \<Rightarrow> string \<Rightarrow> bool" where
  "str_includes [] sub = (sub = [])"
| "str_includes (x # s) sub = (starts_with (x # s) sub \<or> str_includes s sub)"

text \<open>
  \<^verbatim>\<open>String.prototype.replace\<close> with a global pattern that is a literal: every
  occurrence, leftmost first and not overlapping, is replaced. Strings are sequences of
  bytes (UTF-8); on them a literal occurs where it occurs in the JavaScript string.
\<close>

fun replace_all :: "string \<Rightarrow> string \<Rightarrow> string \<Rightarrow> string" where
  "replace_all pat rep [] = []"
| "replace_all pat rep (c # cs) =
     (if pat \<noteq> [] \<and> starts_with (c # cs) pat
      then rep @ replace_all pat rep (drop (length pat - 1) cs)
      else c # replace_all pat rep cs)"

text \<open>
  The first replacement of \<^verbatim>\<open>renderStyledLine\<close>: the pattern
  \<^verbatim>\<open>/\[(\d{2}:\d{2}:\d{2})\]/g\<close>, ten characters long.
\<close>

definition is_digit :: "char \<Rightarrow> bool" where
  "is_digit c \<longleftrightarrow> c \<in> set ''0123456789''"

fun timestamp_at :: "string \<Rightarrow> bool" where
  "timestamp_at (a # h1 # h2 # c1 # m1 # m2 # c2 # s1 # s2 # b # rest) \<longleftrightarrow>
     a = CHR ''['' \<and> is_digit h1 \<and> is_digit h2 \<and> c1 = CHR '':'' \<and> is_digit m1 \<and> is_digit m2
     \<and> c2 = CHR '':'' \<and> is_digit s1 \<and> is_digit s2 \<and> b = CHR '']''"
| "timestamp_at _ \<longleftrightarrow> False"

fun replace_timestamps :: "string \<Rightarrow> string" where
  "replace_timestamps [] = []"
| \<open>replace_timestamps (c # cs) =
     (if timestamp_at (c # cs)
      then ''<span class="ts">'' @ take 10 (c # cs) @ ''</span>'' @ replace_timestamps (drop 9 cs)
      else c # replace_timestamps cs)\<close>

text \<open>The level tags and their colours, in the order of \<^verbatim>\<open>Object.entries(levelColors)\<close>.\<close>

definition levelColors :: "(string \<times> string) list" where
  "levelColors =
     [(''CLIENT'', ''var(--accent)''), (''PIPELINE'', ''#818cf8''), (''SHOT_DETECT'', ''#10b981''),
      (''PROMPT'', ''#fbbf24''), (''VLM'', ''#a78bfa''), (''TOKEN'', ''#22d3ee''),
      (''ERROR'', ''var(--break-border)'')]"

definition colour_level :: "string \<Rightarrow> string \<times> string \<Rightarrow> string" where
  \<open>colour_level styled entry =
     (case entry of
        (level, color) \<Rightarrow>
          replace_all (''['' @ level @ '']'')
            (''<span style="color:'' @ color @ ''; font-weight:900;">['' @ level @ '']</span>'')
            styled)\<close>

text \<open>
  The three signs of the last replacements, as the bytes that ui/console.js holds: the
  arrow, the check mark and the clapper board.
\<close>

definition arrow_sign :: string where
  "arrow_sign = [CHR 0xC3, CHR 0xA2, CHR 0xE2, CHR 0x80, CHR 0xA0, CHR 0xE2, CHR 0x80, CHR 0x99]"

definition check_sign :: string where
  "check_sign = [CHR 0xC3, CHR 0xA2, CHR 0xC5, CHR 0x93, CHR 0xE2, CHR 0x80, CHR 0x9C]"

definition clapper_sign :: string where
  "clapper_sign = [CHR 0xC3, CHR 0xB0, CHR 0xC5, CHR 0xB8, CHR 0xC5, CHR 0xBD, CHR 0xC2, CHR 0xAC]"

text \<open>The markup that \<^verbatim>\<open>renderStyledLine\<close> computes from the raw line (its variable \<^verbatim>\<open>styled\<close>).\<close>

definition styled :: "string \<Rightarrow> string" where
  \<open>styled rawLine =
     (let s1 = replace_timestamps rawLine;
          s2 = foldl colour_level s1 levelColors;
          s3 = replace_all arrow_sign
                 (''<span style="color:var(--accent); font-weight:bold;">'' @ arrow_sign @ ''</span>'') s2;
          s4 = replace_all check_sign
                 (''<span style="color:var(--success); font-weight:bold;">'' @ check_sign @ ''</span>'') s3
      in replace_all clapper_sign
           (''<span style="filter: drop-shadow(0 0 2px var(--accent))">'' @ clapper_sign @ ''</span>'') s4)\<close>

text \<open>
  The module that view.js re-exports as \<^verbatim>\<open>logConsole\<close>, \<^verbatim>\<open>clearConsole\<close> and
  \<^verbatim>\<open>updateProgressBar\<close>.
  The console element is the list of its children, oldest first, each child being its
  \<^verbatim>\<open>innerHTML\<close>: the markup that was written into it, unescaped. The text that the code
  reads back from the last child (\<^verbatim>\<open>lastLine.textContent\<close>) is what the browser makes
  of that markup; it is not computed by code of the repository, and the functions below
  take it as the parameter \<open>text_of\<close>, from markup to text content. The colour of a line,
  which is all that the two flags \<^verbatim>\<open>forceSuccess\<close> and \<^verbatim>\<open>forceError\<close> and the tests
  after the append decide, is read nowhere and is left out.
  A render event records one call of \<^verbatim>\<open>renderStyledLine\<close>: the raw line it was given
  and whether it wrote into the last child or appended a new one.
\<close>

datatype render_event = Appended string | Replaced string

definition isTokenUpdate :: "string \<Rightarrow> bool" where
  "isTokenUpdate rawLine \<longleftrightarrow>
     str_includes rawLine ''[TOKEN]'' \<and> str_includes rawLine ''Thinking...''"

definition isShotUpdate :: "string \<Rightarrow> bool" where
  "isShotUpdate rawLine \<longleftrightarrow>
     str_includes rawLine ''[SHOT_DETECT]'' \<and> str_includes rawLine ''Boundary detection at frame''"

definition renderStyledLine ::
  "(string \<Rightarrow> string) \<Rightarrow> string list \<Rightarrow> string \<Rightarrow> string list \<times> render_event" where
  "renderStyledLine text_of container rawLine =
     (if isTokenUpdate rawLine \<or> isShotUpdate rawLine
      then (if container \<noteq> []
            then (let lastText = text_of (last container)
                  in if isTokenUpdate rawLine \<and> str_includes lastText ''[TOKEN]''
                          \<and> str_includes lastText ''Thinking...''
                     then (butlast container @ [styled rawLine], Replaced rawLine)
                     else if isShotUpdate rawLine \<and> str_includes lastText ''[SHOT_DETECT]''
                          \<and> str_includes lastText ''Boundary detection at frame''
                     then (butlast container @ [styled rawLine], Replaced rawLine)
                     else (container @ [styled rawLine], Appended rawLine))
            else (container @ [styled rawLine], Appended rawLine))
      else (container @ [styled rawLine], Appended rawLine))"

text \<open>\<^verbatim>\<open>newLines.forEach(line => renderStyledLine(consoleEl, line))\<close>\<close>

fun forEach_line ::
  "(string \<Rightarrow> string) \<Rightarrow> string list \<Rightarrow> string list \<Rightarrow> string list \<times> render_event list" where
  "forEach_line text_of container [] = (container, [])"
| "forEach_line text_of container (line # rest) =
     (case renderStyledLine text_of container line of
        (container', ev) \<Rightarrow>
          (case forEach_line text_of container' rest of
             (container'', evs) \<Rightarrow> (container'', ev # evs)))"

text \<open>
  The console module's state: the element \<^verbatim>\<open>consoleLog\<close> (\<open>None\<close> when the page
  has none) and the module variable \<^verbatim>\<open>lastRenderedLogCount\<close>.
\<close>

record console_state =
  consoleLog :: "string list option"
  lastRenderedLogCount :: nat

definition clearConsole :: "console_state \<Rightarrow> console_state" where
  "clearConsole cs = \<lparr>consoleLog = map_option (\<lambda>_. []) (consoleLog cs), lastRenderedLogCount = 0\<rparr>"

text \<open>The argument of \<^verbatim>\<open>logConsole\<close>: an array of lines, or one message.\<close>

datatype log_content = Snapshot "string list" | Message string

definition hasLevelTag :: "string \<Rightarrow> bool" where
  "hasLevelTag content \<longleftrightarrow>
     list_ex (str_includes content)
       [''[CLIENT]'', ''[PIPELINE]'', ''[SHOT_DETECT]'', ''[VLM]'', ''[TOKEN]'', ''[PROMPT]'',
        ''[ERROR]'']"

text \<open>The line that a single message becomes; \<open>timestamp\<close> is the clock's reading.\<close>

definition finalLine :: "string \<Rightarrow> string \<Rightarrow> string" where
  "finalLine timestamp content =
     (if hasLevelTag content then ''['' @ timestamp @ ''] '' @ content
      else ''['' @ timestamp @ ''] [CLIENT] '' @ content)"

definition logConsole ::
  "(string \<Rightarrow> string) \<Rightarrow> string \<Rightarrow> log_content \<Rightarrow> console_state
     \<Rightarrow> console_state \<times> render_event list" where
  "logConsole text_of timestamp content cs =
     (case consoleLog cs of
        None \<Rightarrow> (cs, [])
      | Some consoleEl \<Rightarrow>
          (case content of
             Snapshot lines \<Rightarrow>
               (let newLines = drop (lastRenderedLogCount cs) lines
                in if length newLines = 0 then (cs, [])
                   else (case forEach_line text_of consoleEl newLines of
                           (consoleEl', evs) \<Rightarrow>
                             (cs\<lparr>consoleLog := Some consoleEl',
                                 lastRenderedLogCount := length lines\<rparr>, evs)))
           | Message text \<Rightarrow>
               (case renderStyledLine text_of consoleEl (finalLine timestamp text) of
                  (consoleEl', ev) \<Rightarrow> (cs\<lparr>consoleLog := Some consoleEl'\<rparr>, [ev]))))"

section \<open>The inference manager (managers/inference\_manager.js)\<close>

text \<open>
  A text field of a JSON response: missing, \<^verbatim>\<open>null\<close>, or a string.
\<close>

datatype js_text = Absent | JsNull | JsString string

text \<open>
  A poll response. Every field may be missing. Only \<^verbatim>\<open>status\<close> is ever printed, so
  only there a \<^verbatim>\<open>null\<close> is told from a missing field; for the other fields \<open>None\<close> is
  either (the code tests them and treats both alike). \<^verbatim>\<open>result\<close> is reduced to its
  \<^verbatim>\<open>session_id\<close>, and \<open>None\<close> there is a response without a result.
\<close>

record job_status =
  state :: "string option"
  step :: "int option"
  total_steps :: "int option"
  status :: js_text
  logs :: "string list option"
  result_session_id :: "string option"

text \<open>What the manager does to the outside, in the order it does it.\<close>

datatype notification =
    TriggerInferenceApi
  | PollTaskStatus string
  | AbortTaskApi string
  | Rendered render_event
  | UpdateProgressBar real
  | FinalizeInference string
  | ConsoleWarn

text \<open>
  The manager: the console it writes to, \<^verbatim>\<open>currentTaskId\<close>, and the timer that
  \<^verbatim>\<open>pollStatus\<close> starts, with the task id its callback closes over (\<open>None\<close>: no timer,
  or cleared). One timer is tracked: one job is polled at a time. The abort button, which
  \<^verbatim>\<open>handleAbort\<close> and \<^verbatim>\<open>startInference\<close> only disable and relabel, is left out.
\<close>

record manager =
  ui :: console_state
  currentTaskId :: "string option"
  interval :: "string option"

definition pollStatus :: "string \<Rightarrow> manager \<Rightarrow> manager" where
  "pollStatus taskId m = m\<lparr>interval := Some taskId\<rparr>"

text \<open>JavaScript truthiness of an optional number and of a text field.\<close>

definition truthy_num :: "int option \<Rightarrow> bool" where
  "truthy_num v \<longleftrightarrow> (case v of None \<Rightarrow> False | Some n \<Rightarrow> n \<noteq> 0)"

definition truthy_text :: "js_text \<Rightarrow> bool" where
  "truthy_text v \<longleftrightarrow> (case v of JsString s \<Rightarrow> s \<noteq> [] | _ \<Rightarrow> False)"

text \<open>Reading a field that has been tested to be there.\<close>

definition the_default :: "'a \<Rightarrow> 'a option \<Rightarrow> 'a" where
  "the_default d v = (case v of None \<Rightarrow> d | Some x \<Rightarrow> x)"

text \<open>The string of a text field that has been tested to be truthy.\<close>

definition text_value :: "js_text \<Rightarrow> string" where
  "text_value v = (case v of JsString s \<Rightarrow> s | _ \<Rightarrow> [])"

text \<open>A text field inside a template literal.\<close>

definition template :: "js_text \<Rightarrow> string" where
  "template v =
     (case v of Absent \<Rightarrow> ''undefined'' | JsNull \<Rightarrow> ''null'' | JsString s \<Rightarrow> s)"

text \<open>The message of the FAILURE branch: \<^verbatim>\<open>`[STOPPED] ${status.status}`\<close>\<close>

definition stopped_message :: "job_status \<Rightarrow> string" where
  "stopped_message st = ''[STOPPED] '' @ template (status st)"

datatype poll_result = PollFailed | PollOk job_status

text \<open>The first statement of the callback: what the response has to show in the console.\<close>

definition log_status ::
  "(string \<Rightarrow> string) \<Rightarrow> string \<Rightarrow> job_status \<Rightarrow> console_state
     \<Rightarrow> console_state \<times> render_event list" where
  "log_status text_of timestamp st cs =
     (if (case logs st of None \<Rightarrow> False | Some ls \<Rightarrow> length ls > 0)
      then logConsole text_of timestamp (Snapshot (the_default [] (logs st))) cs
      else if truthy_text (status st)
      then logConsole text_of timestamp (Message (text_value (status st))) cs
      else (cs, []))"

text \<open>
  JavaScript numbers are IEEE 754 doubles, and \<^verbatim>\<open>/\<close> and \<^verbatim>\<open>*\<close> round the exact
  result to the nearest double, a tie going to the even significand. \<open>to_double\<close> is that
  rounding for a result in the range of the normal doubles: 53 significant bits, so the
  spacing of the doubles around \<open>x\<close> is 2 to the power of \<open>\<lfloor>log 2 \<bar>x\<bar>\<rfloor> - 52\<close>. Overflow,
  subnormal results and NaN are not modelled; they do not arise from integers of
  magnitude up to \<open>2 ^ 53\<close>, which are doubles themselves.
\<close>

definition round_half_even :: "real \<Rightarrow> int" where
  "round_half_even x =
     (let f = \<lfloor>x\<rfloor>
      in if x - of_int f < 1 / 2 then f
         else if x - of_int f > 1 / 2 then f + 1
         else if even f then f else f + 1)"

definition to_double :: "real \<Rightarrow> real" where
  "to_double x =
     (if x = 0 then 0
      else (let ulp = 2 powr (of_int \<lfloor>log 2 \<bar>x\<bar>\<rfloor> - 52)
            in ulp * of_int (round_half_even (x / ulp))))"

text \<open>\<^verbatim>\<open>(step / total) * 100\<close>: two operations, each rounded.\<close>

definition js_percent :: "int \<Rightarrow> int \<Rightarrow> real" where
  "js_percent a b = to_double (to_double (real_of_int a / real_of_int b) * 100)"

text \<open>The second statement of the callback: the progress bar.\<close>

definition progress_update :: "job_status \<Rightarrow> notification list" where
  "progress_update st =
     (if truthy_num (step st) \<and> truthy_num (total_steps st)
      then (let pct = js_percent (the_default 0 (step st)) (the_default 0 (total_steps st))
            in [UpdateProgressBar pct])
      else [])"

text \<open>
  One run of the timer's callback, with the clock's reading at the tick. A cleared timer
  does not fire. A rejected request lands in the \<^verbatim>\<open>catch\<close>; so does a SUCCESS
  without a result, after the timer has been cleared. \<^verbatim>\<open>finalizeInference\<close> is the
  notification of success; what it fetches and renders is not part of the poll loop.
\<close>

definition poll_tick ::
  "(string \<Rightarrow> string) \<Rightarrow> string \<Rightarrow> poll_result \<Rightarrow> manager \<Rightarrow> manager \<times> notification list" where
  "poll_tick text_of timestamp response m =
     (case interval m of
        None \<Rightarrow> (m, [])
      | Some taskId \<Rightarrow>
          (case response of
             PollFailed \<Rightarrow> (m, [PollTaskStatus taskId, ConsoleWarn])
           | PollOk st \<Rightarrow>
               (case log_status text_of timestamp st (ui m) of
                  (ui1, evs1) \<Rightarrow>
                    (let seen = [PollTaskStatus taskId] @ map Rendered evs1 @ progress_update st
                     in if state st = Some ''SUCCESS''
                        then (case result_session_id st of
                                None \<Rightarrow> (m\<lparr>ui := ui1, interval := None\<rparr>, seen @ [ConsoleWarn])
                              | Some sessionId \<Rightarrow>
                                  (m\<lparr>ui := ui1, interval := None\<rparr>,
                                   seen @ [FinalizeInference sessionId]))
                        else if state st = Some ''FAILURE''
                        then (case logConsole text_of timestamp (Message (stopped_message st)) ui1 of
                                (ui2, evs2) \<Rightarrow>
                                  (m\<lparr>ui := ui2, interval := None\<rparr>, seen @ map Rendered evs2))
                        else (m\<lparr>ui := ui1\<rparr>, seen)))))"

text \<open>
  \<^verbatim>\<open>handleAbort\<close>; \<open>failure\<close> is the message of a rejected abort request. The notice
  starts with a warning sign (U+26A0 U+FE0F), written here as its UTF-8 bytes.
\<close>

definition abort_notice :: string where
  "abort_notice =
     [CHR 0xE2, CHR 0x9A, CHR 0xA0, CHR 0xEF, CHR 0xB8, CHR 0x8F]
       @ '' Sending abort signal to backend...''"

definition handleAbort ::
  "(string \<Rightarrow> string) \<Rightarrow> string \<Rightarrow> string option \<Rightarrow> manager \<Rightarrow> manager \<times> notification list" where
  "handleAbort text_of timestamp failure m =
     (case currentTaskId m of
        None \<Rightarrow> (m, [])
      | Some taskId \<Rightarrow>
          (case logConsole text_of timestamp (Message abort_notice) (ui m) of
             (ui1, evs1) \<Rightarrow>
               (case failure of
                  None \<Rightarrow> (m\<lparr>ui := ui1\<rparr>, map Rendered evs1 @ [AbortTaskApi taskId])
                | Some msg \<Rightarrow>
                    (case logConsole text_of timestamp
                            (Message (''[ERROR] Failed to send abort signal: '' @ msg)) ui1 of
                       (ui2, evs2) \<Rightarrow>
                         (m\<lparr>ui := ui2\<rparr>,
                          map Rendered evs1 @ [AbortTaskApi taskId] @ map Rendered evs2)))))"

text \<open>
  \<^verbatim>\<open>startInference\<close>, without the form it fills in: nothing without a video file;
  otherwise the progress bar is reset, the start is logged (\<open>notice\<close> is the line chosen
  from the two toggles) and the job is submitted. Polling starts on an accepted
  submission only.
\<close>

definition startInference ::
  "(string \<Rightarrow> string) \<Rightarrow> string \<Rightarrow> bool \<Rightarrow> string \<Rightarrow> string awaited \<Rightarrow> manager
     \<Rightarrow> manager \<times> notification list"
where
  "startInference text_of timestamp has_video notice submission m =
     (if \<not> has_video then (m, [])
      else (case logConsole text_of timestamp (Message notice) (ui m) of
              (ui1, evs1) \<Rightarrow>
                (let sent = [UpdateProgressBar 0] @ map Rendered evs1 @ [TriggerInferenceApi]
                 in case submission of
                      Resolved taskId \<Rightarrow>
                        (pollStatus taskId (m\<lparr>ui := ui1, currentTaskId := Some taskId\<rparr>), sent)
                    | Rejected msg \<Rightarrow>
                        (case logConsole text_of timestamp (Message (''[FATAL] '' @ msg)) ui1 of
                           (ui2, evs2) \<Rightarrow>
                             (m\<lparr>ui := ui2, currentTaskId := None\<rparr>, sent @ map Rendered evs2)))))"

text \<open>What happens to the manager, one event of the page at a time.\<close>

datatype input = TimerTick string poll_result | AbortClick string "string option"

definition handle_input ::
  "(string \<Rightarrow> string) \<Rightarrow> input \<Rightarrow> manager \<Rightarrow> manager \<times> notification list" where
  "handle_input text_of i m =
     (case i of
        TimerTick timestamp response \<Rightarrow> poll_tick text_of timestamp response m
      | AbortClick timestamp failure \<Rightarrow> handleAbort text_of timestamp failure m)"

fun run ::
  "(string \<Rightarrow> string) \<Rightarrow> manager \<Rightarrow> input list \<Rightarrow> manager \<times> notification list" where
  "run text_of m [] = (m, [])"
| "run text_of m (i # rest) =
     (case handle_input text_of i m of
        (m', evs) \<Rightarrow> (case run text_of m' rest of (m'', evs') \<Rightarrow> (m'', evs @ evs')))"

section \<open>Auxiliary definitions and sample inputs\<close>

definition mk_shot :: "string \<Rightarrow> real \<Rightarrow> real \<Rightarrow> bool \<Rightarrow> shot" where
  "mk_shot i s e b = \<lparr>shot_id = i, start_time = s, end_time = e, is_scene_break = b\<rparr>"

definition seven_shots :: "shot list" where
  "seven_shots =
     [mk_shot ''s0'' 0 1 True, mk_shot ''s1'' 1 2 False, mk_shot ''s2'' 2 3 True,
      mk_shot ''s3'' 3 4 False, mk_shot ''s4'' 4 5 False, mk_shot ''s5'' 5 6 True,
      mk_shot ''s6'' 6 7 False]"

definition three_plain :: "shot list" where
  "three_plain = [mk_shot ''a'' 0 1 True, mk_shot ''b'' 1 2 False, mk_shot ''c'' 2 3 False]"

definition three_breaks :: "shot list" where
  "three_breaks = [mk_shot ''a'' 0 1 False, mk_shot ''b'' 1 2 True, mk_shot ''c'' 2 3 True]"

definition two_shots :: "shot list" where
  "two_shots = [mk_shot ''0'' 0 5 False, mk_shot ''5'' 5 9 False]"

definition gap_shots :: "shot list" where
  "gap_shots = [mk_shot ''a'' 0 2 False, mk_shot ''b'' 4 6 True]"

text \<open>The line that a render event carries.\<close>

fun event_line :: "render_event \<Rightarrow> string" where
  "event_line (Appended l) = l"
| "event_line (Replaced l) = l"

text \<open>
  The replacement condition as the specification words it: the new line is of a
  replaceable category and the last rendered line carries the same category.
\<close>

definition same_replaceable_category :: "string \<Rightarrow> string \<Rightarrow> bool" where
  "same_replaceable_category lastText rawLine \<longleftrightarrow>
     (isTokenUpdate rawLine \<and> isTokenUpdate lastText)
     \<or> (isShotUpdate rawLine \<and> isShotUpdate lastText)"

text \<open>
  A text extraction for the examples: it drops every tag, from \<^verbatim>\<open><\<close> to the next
  \<^verbatim>\<open>>\<close>, and keeps the rest.
\<close>

fun strip_tags :: "bool \<Rightarrow> string \<Rightarrow> string" where
  "strip_tags in_tag [] = []"
| "strip_tags in_tag (c # cs) =
     (if in_tag then strip_tags (c \<noteq> CHR ''>'') cs
      else if c = CHR ''<'' then strip_tags True cs
      else c # strip_tags False cs)"

definition sample_console :: console_state where
  "sample_console =
     \<lparr>consoleLog = Some [styled ''[PIPELINE] start''], lastRenderedLogCount = 1\<rparr>"

definition sample_snapshot :: "string list" where
  "sample_snapshot =
     [''[PIPELINE] start'', ''[TOKEN] Thinking... 5 tokens'', ''[TOKEN] Thinking... 9 tokens'']"

text \<open>Reading a trace: the progress values, the rendered lines and the polls in it.\<close>

fun progress_of :: "notification list \<Rightarrow> real list" where
  "progress_of [] = []"
| "progress_of (UpdateProgressBar pct # evs) = pct # progress_of evs"
| "progress_of (_ # evs) = progress_of evs"

fun rendered_lines :: "notification list \<Rightarrow> string list" where
  "rendered_lines [] = []"
| "rendered_lines (Rendered ev # evs) = event_line ev # rendered_lines evs"
| "rendered_lines (_ # evs) = rendered_lines evs"

fun polls_of :: "notification list \<Rightarrow> nat" where
  "polls_of [] = 0"
| "polls_of (PollTaskStatus _ # evs) = Suc (polls_of evs)"
| "polls_of (_ # evs) = polls_of evs"

text \<open>A response that reports one of the two states on which the callback clears the timer.\<close>

definition terminal_response :: "poll_result \<Rightarrow> bool" where
  "terminal_response r \<longleftrightarrow>
     (case r of
        PollFailed \<Rightarrow> False
      | PollOk st \<Rightarrow> state st = Some ''SUCCESS'' \<or> state st = Some ''FAILURE'')"

fun terminal_input :: "input \<Rightarrow> bool" where
  "terminal_input (TimerTick _ r) = terminal_response r"
| "terminal_input (AbortClick _ _) = False"

text \<open>The timer ticks of an input sequence up to and including the first terminal one.\<close>

fun polls_expected :: "input list \<Rightarrow> nat" where
  "polls_expected [] = 0"
| "polls_expected (AbortClick _ _ # rest) = polls_expected rest"
| "polls_expected (TimerTick ts r # rest) =
     (if terminal_response r then 1 else Suc (polls_expected rest))"

definition mk_status ::
  "string \<Rightarrow> int option \<Rightarrow> int option \<Rightarrow> js_text \<Rightarrow> string list option \<Rightarrow> string option
     \<Rightarrow> job_status" where
  "mk_status s a b txt ls sid =
     \<lparr>state = Some s, step = a, total_steps = b, status = txt, logs = ls,
      result_session_id = sid\<rparr>"

definition sample_manager :: manager where
  "sample_manager =
     \<lparr>ui = \<lparr>consoleLog = Some [], lastRenderedLogCount = 0\<rparr>,
      currentTaskId = Some ''t1'', interval = Some ''t1''\<rparr>"

definition progress_1_of_4 :: job_status where
  "progress_1_of_4 = mk_status ''PROGRESS'' (Some 1) (Some 4) Absent None None"

definition progress_zero_total :: job_status where
  "progress_zero_total = mk_status ''PROGRESS'' (Some 1) (Some 0) Absent None None"

definition progress_zero_step :: job_status where
  "progress_zero_step = mk_status ''PROGRESS'' (Some 0) (Some 4) Absent None None"

definition progress_1_of_3 :: job_status where
  "progress_1_of_3 = mk_status ''PROGRESS'' (Some 1) (Some 3) Absent None None"

definition still_running :: job_status where
  "still_running = mk_status ''PROGRESS'' (Some 2) (Some 4) (JsString ''working'') None None"

definition succeeded :: job_status where
  "succeeded = mk_status ''SUCCESS'' (Some 4) (Some 4) Absent None (Some ''s1'')"

definition failed_boom :: job_status where
  "failed_boom =
     mk_status ''FAILURE'' None None (JsString ''boom'') (Some [''[PIPELINE] start'']) None"

definition inputs_to_success :: "input list" where
  "inputs_to_success =
     [TimerTick ''12:00:01'' (PollOk progress_1_of_4),
      AbortClick ''12:00:02'' None,
      TimerTick ''12:00:03'' PollFailed,
      TimerTick ''12:00:04'' (PollOk still_running),
      TimerTick ''12:00:06'' (PollOk succeeded),
      TimerTick ''12:00:07'' (PollOk still_running)]"

definition inputs_after_abort :: "input list" where
  "inputs_after_abort =
     [AbortClick ''12:00:02'' (Some ''offline''),
      TimerTick ''12:00:03'' (PollOk still_running),
      TimerTick ''12:00:04'' PollFailed]"

text \<open>The clamp of the specification: \<open>x\<close> brought into the range from \<open>lo\<close> to \<open>hi\<close>.\<close>

definition clamp :: "int \<Rightarrow> int \<Rightarrow> int \<Rightarrow> int" where
  "clamp x lo hi = (if x < lo then lo else if hi < x then hi else x)"

definition five_shots :: "shot list" where
  "five_shots =
     [mk_shot ''s0'' 0 1 False, mk_shot ''s1'' 1 2 False, mk_shot ''s2'' 2 3 True,
      mk_shot ''s3'' 3 4 False, mk_shot ''s4'' 4 5 False]"

definition mk_page :: "shot list \<Rightarrow> int \<Rightarrow> real \<Rightarrow> bool \<Rightarrow> page" where
  "mk_page results cursor t is_paused =
     \<lparr>store = initial_store\<lparr>inferenceResults := results, currentShotIndex := cursor\<rparr>,
      videoPlayer = Some \<lparr>currentTime = t, paused = is_paused\<rparr>,
      overlay = None\<rparr>"

text \<open>
  The shot sequence of the data model: every shot has a positive length, and every shot
  ends no later than the shots after it start.
\<close>

fun ordered_shots :: "shot list \<Rightarrow> bool" where
  "ordered_shots [] \<longleftrightarrow> True"
| "ordered_shots (s # rest) \<longleftrightarrow>
     start_time s < end_time s \<and> list_all (\<lambda>r. end_time s \<le> start_time r) rest
     \<and> ordered_shots rest"

text \<open>
  Writing \<^verbatim>\<open>currentTime\<close> seeks, and the media element fires a time update at the new
  position: the skip followed by the handler that \<^verbatim>\<open>syncPlayer\<close> attached.
\<close>

definition skipToShot_then_timeupdate :: "int \<Rightarrow> page \<Rightarrow> page \<times> player_event list" where
  "skipToShot_then_timeupdate offset pg =
     (case skipToShot offset pg of
        (pg1, evs1) \<Rightarrow> (case ontimeupdate pg1 of (pg2, evs2) \<Rightarrow> (pg2, evs1 @ evs2)))"

text \<open>The range invariant of the cursor: -1, or an index into the loaded shots.\<close>

definition cursor_in_range :: "store \<Rightarrow> bool" where
  "cursor_in_range st \<longleftrightarrow>
     currentShotIndex st = -1
     \<or> (0 \<le> currentShotIndex st \<and> currentShotIndex st < int (length (inferenceResults st)))"

text \<open>
  A session of five shots is loaded and played into its last shot; then a session of two
  shots is loaded.
\<close>

definition store_after_a :: store where
  "store_after_a =
     hydrateSession ''A'' (Resolved \<lparr>shots = five_shots, video_filename = ''a.mp4''\<rparr>) initial_store"

definition store_played_a :: store where
  "store_played_a =
     store (fst (ontimeupdate
       \<lparr>store = store_after_a, videoPlayer = Some \<lparr>currentTime = 4.5, paused = False\<rparr>,
        overlay = None\<rparr>))"

definition store_after_b :: store where
  "store_after_b =
     hydrateSession ''B'' (Resolved \<lparr>shots = two_shots, video_filename = ''b.mp4''\<rparr>) store_played_a"

section \<open>Scene grouping: properties\<close>

lemma injectSceneBlock_shots:
  "map scene_shots (injectSceneBlock grid buf n) =
     map scene_shots grid @ (if buf = [] then [] else [buf])"
  by (simp add: injectSceneBlock_def)

lemma forEach_shot_scan:
  "idx \<noteq> 0 \<Longrightarrow> buf \<noteq> [] \<Longrightarrow>
   (case forEach_shot xs idx (grid, buf, n) of
      (grid', buf', n') \<Rightarrow>
        buf' \<noteq> [] \<and> map scene_shots grid' @ [buf'] = map scene_shots grid @ scan_scenes buf xs)"
proof (induction xs arbitrary: idx grid buf n)
  case Nil
  then show ?case by simp
next
  case (Cons s rest)
  show ?case
  proof (cases "is_scene_break s")
    case True
    have "case forEach_shot rest (idx + 1) (injectSceneBlock grid buf n, [s], n + 1) of
            (grid', buf', n') \<Rightarrow> buf' \<noteq> [] \<and>
              map scene_shots grid' @ [buf'] =
              map scene_shots (injectSceneBlock grid buf n) @ scan_scenes [s] rest"
      by (rule Cons.IH) simp_all
    with True Cons.prems show ?thesis
      by (simp add: injectSceneBlock_shots)
  next
    case False
    have "case forEach_shot rest (idx + 1) (grid, buf @ [s], n) of
            (grid', buf', n') \<Rightarrow> buf' \<noteq> [] \<and>
              map scene_shots grid' @ [buf'] = map scene_shots grid @ scan_scenes (buf @ [s]) rest"
      by (rule Cons.IH) simp_all
    with False show ?thesis by simp
  qed
qed

lemma groupScenes_refines: "groupScenes results = groupScenes_spec results"
proof (cases results)
  case Nil
  then show ?thesis by (simp add: groupScenes_def renderTimeline_def)
next
  case (Cons s rest)
  have step: "forEach_shot (s # rest) 0 ([], [], 1) = forEach_shot rest 1 ([], [s], 1)"
    by simp
  have "case forEach_shot rest 1 ([], [s], 1) of
          (grid', buf', n') \<Rightarrow> buf' \<noteq> [] \<and>
            map scene_shots grid' @ [buf'] = scan_scenes [s] rest"
    using forEach_shot_scan [where idx = 1 and buf = "[s]" and xs = rest and grid = "[]" and n = 1]
    by simp
  then show ?thesis
    unfolding Cons groupScenes_def renderTimeline_def step
    by (auto simp: injectSceneBlock_shots split: prod.splits)
qed

lemma scan_scenes_no_break:
  "\<forall>s \<in> set xs. \<not> is_scene_break s \<Longrightarrow> scan_scenes buf xs = [buf @ xs]"
  by (induction xs arbitrary: buf) simp_all

lemma scan_scenes_all_break:
  "\<forall>s \<in> set xs. is_scene_break s \<Longrightarrow> scan_scenes buf xs = buf # map (\<lambda>s. [s]) xs"
  by (induction xs arbitrary: buf) simp_all

lemma six_or_more: "6 \<le> length xs \<Longrightarrow> \<exists>a b c d e f rest. xs = a # b # c # d # e # f # rest"
  by (auto simp: numeral_eq_Suc Suc_le_length_iff)

lemma groupScenes_two_five:
  assumes len: "6 \<le> length results"
    and flags: "\<forall>i. 0 < i \<and> i < length results \<longrightarrow> (is_scene_break (results ! i) \<longleftrightarrow> i = 2 \<or> i = 5)"
  shows "groupScenes_spec results = [take 2 results, take 3 (drop 2 results), drop 5 results]"
proof -
  from len obtain a b c d e f rest where xs: "results = a # b # c # d # e # f # rest"
    using six_or_more by blast
  have b: "\<not> is_scene_break b" using flags [rule_format, of 1] by (simp add: xs)
  have c: "is_scene_break c" using flags [rule_format, of 2] by (simp add: xs)
  have d: "\<not> is_scene_break d" using flags [rule_format, of 3] by (simp add: xs)
  have e: "\<not> is_scene_break e" using flags [rule_format, of 4] by (simp add: xs)
  have f: "is_scene_break f" using flags [rule_format, of 5] by (simp add: xs)
  have rest: "\<forall>s \<in> set rest. \<not> is_scene_break s"
  proof
    fix s assume "s \<in> set rest"
    then obtain k where k: "k < length rest" "rest ! k = s"
      by (auto simp: in_set_conv_nth)
    from flags [rule_format, of "k + 6"] k show "\<not> is_scene_break s"
      by (simp add: xs)
  qed
  show ?thesis
    by (simp add: xs b c d e f scan_scenes_no_break [OF rest])
qed

text \<open>
  C1. The scenes that \<^verbatim>\<open>renderTimeline\<close> renders are those of the grouping as the
  specification words it: shot 0 opens the first scene whatever its flag, a later shot
  with the flag closes the buffer and opens the next scene, a later shot without it joins
  the buffer, and the last buffer is flushed. So no shots give no scene; flags on every
  shot (after the first) give one scene per shot; no flag (after the first shot) on a
  non-empty input gives one scene holding every shot; flags at exactly the indices 2 and 5
  of six or more shots give three scenes of 2, 3 and N - 5 shots.
\<close>

theorem scene_grouping:
  "groupScenes results = groupScenes_spec results
   \<and> groupScenes [] = []
   \<and> ((\<forall>s \<in> set (tl results). is_scene_break s) \<longrightarrow>
        groupScenes results = map (\<lambda>s. [s]) results)
   \<and> (results \<noteq> [] \<and> (\<forall>s \<in> set (tl results). \<not> is_scene_break s) \<longrightarrow>
        groupScenes results = [results])
   \<and> (6 \<le> length results
        \<and> (\<forall>i. 0 < i \<and> i < length results \<longrightarrow>
              (is_scene_break (results ! i) \<longleftrightarrow> i = 2 \<or> i = 5)) \<longrightarrow>
        groupScenes results = [take 2 results, take 3 (drop 2 results), drop 5 results]
        \<and> map length (groupScenes results) = [2, 3, length results - 5])"
proof (intro conjI impI)
  show "groupScenes results = groupScenes_spec results"
    by (rule groupScenes_refines)
  show "groupScenes [] = []"
    by (simp add: groupScenes_refines)
  show "groupScenes results = map (\<lambda>s. [s]) results"
    if "\<forall>s \<in> set (tl results). is_scene_break s"
    using that by (cases results) (simp_all add: groupScenes_refines scan_scenes_all_break)
  show "groupScenes results = [results]"
    if "results \<noteq> [] \<and> (\<forall>s \<in> set (tl results). \<not> is_scene_break s)"
    using that by (cases results) (simp_all add: groupScenes_refines scan_scenes_no_break)
  assume h: "6 \<le> length results
        \<and> (\<forall>i. 0 < i \<and> i < length results \<longrightarrow>
              (is_scene_break (results ! i) \<longleftrightarrow> i = 2 \<or> i = 5))"
  then show g: "groupScenes results = [take 2 results, take 3 (drop 2 results), drop 5 results]"
    by (simp add: groupScenes_refines groupScenes_two_five)
  from h have "6 \<le> length results" by blast
  then show "map length (groupScenes results) = [2, 3, length results - 5]"
    unfolding g by simp
qed

lemma seven_flags:
  "\<forall>i. 0 < i \<and> i < length seven_shots \<longrightarrow>
       (is_scene_break (seven_shots ! i) \<longleftrightarrow> i = 2 \<or> i = 5)"
  by (auto simp: seven_shots_def mk_shot_def nth_Cons' less_Suc_eq numeral_eq_Suc)

theorem scene_grouping_witness:
  "map (map shot_id) (groupScenes seven_shots) = [[''s0'', ''s1''], [''s2'', ''s3'', ''s4''], [''s5'', ''s6'']]
   \<and> map length (groupScenes seven_shots) = [2, 3, 2]
   \<and> groupScenes three_plain = [three_plain]
   \<and> map (map shot_id) (groupScenes three_breaks) = [[''a''], [''b''], [''c'']]"
proof -
  have flags7: "6 \<le> length seven_shots
     \<and> (\<forall>i. 0 < i \<and> i < length seven_shots \<longrightarrow>
           (is_scene_break (seven_shots ! i) \<longleftrightarrow> i = 2 \<or> i = 5))"
    using seven_flags by (simp add: seven_shots_def)
  have plain: "three_plain \<noteq> [] \<and> (\<forall>s \<in> set (tl three_plain). \<not> is_scene_break s)"
    by (simp add: three_plain_def mk_shot_def)
  have breaks: "\<forall>s \<in> set (tl three_breaks). is_scene_break s"
    by (simp add: three_breaks_def mk_shot_def)
  from scene_grouping [of seven_shots] flags7
  have a: "groupScenes seven_shots = [take 2 seven_shots, take 3 (drop 2 seven_shots), drop 5 seven_shots]"
    and b: "map length (groupScenes seven_shots) = [2, 3, length seven_shots - 5]"
    by blast+
  from scene_grouping [of three_plain] plain
  have c: "groupScenes three_plain = [three_plain]" by blast
  from scene_grouping [of three_breaks] breaks
  have d: "groupScenes three_breaks = map (\<lambda>s. [s]) three_breaks" by blast
  show ?thesis
    unfolding a c d
    by (simp add: seven_shots_def three_breaks_def mk_shot_def)
qed

section \<open>Playback position: properties\<close>

lemma findIndex_from_takeWhile:
  "findIndex_from p xs k =
     (if \<exists>x \<in> set xs. p x then k + int (length (takeWhile (\<lambda>x. \<not> p x) xs)) else -1)"
  by (induction xs arbitrary: k) auto

lemma takeWhile_stops:
  "\<exists>x \<in> set xs. p x \<Longrightarrow> length (takeWhile (\<lambda>x. \<not> p x) xs) < length xs"
  by (induction xs) auto

lemma findIndex_none: "findIndex p xs = -1 \<longleftrightarrow> (\<forall>x \<in> set xs. \<not> p x)"
  by (auto simp: findIndex_def findIndex_from_takeWhile)

lemma findIndex_first:
  assumes "findIndex p xs \<noteq> -1"
  shows "0 \<le> findIndex p xs \<and> findIndex p xs < int (length xs)
         \<and> p (xs ! nat (findIndex p xs)) \<and> (\<forall>j < nat (findIndex p xs). \<not> p (xs ! j))"
proof -
  let ?n = "length (takeWhile (\<lambda>x. \<not> p x) xs)"
  from assms have ex: "\<exists>x \<in> set xs. p x"
    by (auto simp: findIndex_none)
  then have idx: "findIndex p xs = int ?n"
    by (simp add: findIndex_def findIndex_from_takeWhile)
  from ex have lt: "?n < length xs"
    by (rule takeWhile_stops)
  have hit: "p (xs ! ?n)"
    using nth_length_takeWhile [OF lt] by simp
  have before: "\<forall>j < ?n. \<not> p (xs ! j)"
    by (metis nth_mem set_takeWhileD takeWhile_nth)
  show ?thesis using idx lt hit before by simp
qed

text \<open>
  C2. For every shot sequence and every time \<open>t\<close>, the lookup of the time-update handler
  returns the lowest index of a shot with \<open>start_time \<le> t < end_time\<close> (the end is
  exclusive), and -1 (none) exactly when no shot holds \<open>t\<close>: in particular when \<open>t\<close>
  precedes every shot, or falls in a gap. For the shots (0, 5) and (5, 9) it returns index 1
  at 5, none at 9 and none at -1.
\<close>

theorem active_segment_lookup:
  "(findActiveAt results t = -1 \<longleftrightarrow>
      (\<forall>s \<in> set results. \<not> (start_time s \<le> t \<and> t < end_time s)))
   \<and> (findActiveAt results t \<noteq> -1 \<longrightarrow>
        0 \<le> findActiveAt results t \<and> findActiveAt results t < int (length results)
        \<and> start_time (results ! nat (findActiveAt results t)) \<le> t
        \<and> t < end_time (results ! nat (findActiveAt results t))
        \<and> (\<forall>j < nat (findActiveAt results t).
              \<not> (start_time (results ! j) \<le> t \<and> t < end_time (results ! j))))
   \<and> ((\<forall>s \<in> set results. t < start_time s) \<longrightarrow> findActiveAt results t = -1)
   \<and> findActiveAt two_shots 5 = 1
   \<and> findActiveAt two_shots 9 = -1
   \<and> findActiveAt two_shots (-1) = -1"
proof (intro conjI impI)
  show none: "findActiveAt results t = -1 \<longleftrightarrow>
      (\<forall>s \<in> set results. \<not> (start_time s \<le> t \<and> t < end_time s))"
    by (simp add: findActiveAt_def findIndex_none under_playhead_def)
  show "findActiveAt results t = -1" if "\<forall>s \<in> set results. t < start_time s"
    using that none by fastforce
  show "findActiveAt two_shots 5 = 1" "findActiveAt two_shots 9 = -1"
    "findActiveAt two_shots (-1) = -1"
    by (simp_all add: findActiveAt_def findIndex_def under_playhead_def two_shots_def mk_shot_def)
next
  assume "findActiveAt results t \<noteq> -1"
  then have "findIndex (under_playhead t) results \<noteq> -1"
    by (simp add: findActiveAt_def)
  from findIndex_first [OF this]
  show "0 \<le> findActiveAt results t" "findActiveAt results t < int (length results)"
    "start_time (results ! nat (findActiveAt results t)) \<le> t"
    "t < end_time (results ! nat (findActiveAt results t))"
    "\<forall>j < nat (findActiveAt results t).
        \<not> (start_time (results ! j) \<le> t \<and> t < end_time (results ! j))"
    by (simp_all add: findActiveAt_def under_playhead_def)
qed

theorem active_segment_lookup_witness:
  "findActiveAt gap_shots 5 = 1 \<and> findActiveAt gap_shots 3 = -1 \<and> findActiveAt gap_shots (-1) = -1
   \<and> start_time (gap_shots ! 1) \<le> 5 \<and> 5 < end_time (gap_shots ! 1)"
proof -
  have found: "findActiveAt gap_shots 5 = 1"
    by (simp add: findActiveAt_def findIndex_def under_playhead_def gap_shots_def mk_shot_def)
  have gap: "\<forall>s \<in> set gap_shots. \<not> (start_time s \<le> 3 \<and> 3 < end_time s)"
    by (simp add: gap_shots_def mk_shot_def)
  have before: "\<forall>s \<in> set gap_shots. -1 < start_time s"
    by (simp add: gap_shots_def mk_shot_def)
  from active_segment_lookup [of gap_shots 5] found
  have a: "start_time (gap_shots ! 1) \<le> 5 \<and> 5 < end_time (gap_shots ! 1)"
    by simp
  from active_segment_lookup [of gap_shots 3] gap
  have b: "findActiveAt gap_shots 3 = -1" by blast
  from active_segment_lookup [of gap_shots "-1"] before
  have c: "findActiveAt gap_shots (-1) = -1" by blast
  from found a b c show ?thesis by simp
qed

section \<open>The console: properties\<close>

lemma renderStyledLine_event: "event_line (snd (renderStyledLine text_of c l)) = l"
  by (simp add: renderStyledLine_def Let_def)

lemma renderStyledLine_length: "length c \<le> length (fst (renderStyledLine text_of c l))"
  by (simp add: renderStyledLine_def Let_def)

lemma forEach_line_events: "map event_line (snd (forEach_line text_of c ls)) = ls"
proof (induction ls arbitrary: c)
  case Nil
  show ?case by simp
next
  case (Cons l ls)
  obtain c1 ev where r: "renderStyledLine text_of c l = (c1, ev)"
    by (cases "renderStyledLine text_of c l")
  obtain c2 evs where f: "forEach_line text_of c1 ls = (c2, evs)"
    by (cases "forEach_line text_of c1 ls")
  have "event_line ev = l" using renderStyledLine_event [of text_of c l] r by simp
  moreover have "map event_line evs = ls" using Cons.IH [of c1] f by simp
  ultimately show ?case by (simp add: r f)
qed

lemma forEach_line_length: "length c \<le> length (fst (forEach_line text_of c ls))"
proof (induction ls arbitrary: c)
  case Nil
  show ?case by simp
next
  case (Cons l ls)
  obtain c1 ev where r: "renderStyledLine text_of c l = (c1, ev)"
    by (cases "renderStyledLine text_of c l")
  obtain c2 evs where f: "forEach_line text_of c1 ls = (c2, evs)"
    by (cases "forEach_line text_of c1 ls")
  have "length c \<le> length c1" using renderStyledLine_length [of c text_of l] r by simp
  moreover have "length c1 \<le> length c2" using Cons.IH [of c1] f by simp
  ultimately show ?case by (simp add: r f)
qed

lemma logConsole_stale:
  "length lines \<le> lastRenderedLogCount cs \<Longrightarrow>
   logConsole text_of ts (Snapshot lines) cs = (cs, [])"
  by (simp add: logConsole_def split: option.splits)

lemma logConsole_fresh:
  assumes el: "consoleLog cs = Some el" and more: "lastRenderedLogCount cs < length lines"
  shows "logConsole text_of ts (Snapshot lines) cs =
           (cs\<lparr>consoleLog :=
                 Some (fst (forEach_line text_of el (drop (lastRenderedLogCount cs) lines))),
               lastRenderedLogCount := length lines\<rparr>,
            snd (forEach_line text_of el (drop (lastRenderedLogCount cs) lines)))"
  using assms by (simp add: logConsole_def Let_def split: prod.splits)

lemma logConsole_count:
  "lastRenderedLogCount (fst (logConsole text_of ts (Snapshot lines) cs)) =
     (if consoleLog cs = None then lastRenderedLogCount cs
      else max (lastRenderedLogCount cs) (length lines))"
proof (cases "consoleLog cs")
  case None
  then show ?thesis by (simp add: logConsole_def)
next
  case (Some el)
  show ?thesis
  proof (cases "lastRenderedLogCount cs < length lines")
    case True
    then show ?thesis using Some by (simp add: logConsole_fresh)
  next
    case False
    then show ?thesis using Some by (simp add: logConsole_stale)
  qed
qed

text \<open>
  C3. \<^verbatim>\<open>logConsole\<close> on a snapshot: a snapshot no longer than the count \<open>n\<close> changes
  nothing and renders nothing; with the console element in the page, a longer snapshot
  renders one event for each line beyond index \<open>n\<close>, in order, sets \<open>n\<close> to the
  snapshot's length and leaves no fewer rendered lines than before; feeding the same
  snapshot a second time changes nothing and renders nothing; \<open>n\<close> never decreases.
\<close>

theorem snapshot_idempotence:
  "(length lines \<le> lastRenderedLogCount cs \<longrightarrow>
      logConsole text_of ts (Snapshot lines) cs = (cs, []))
   \<and> (consoleLog cs = Some el \<and> lastRenderedLogCount cs < length lines \<longrightarrow>
        lastRenderedLogCount (fst (logConsole text_of ts (Snapshot lines) cs)) = length lines
        \<and> map event_line (snd (logConsole text_of ts (Snapshot lines) cs))
            = drop (lastRenderedLogCount cs) lines
        \<and> (\<exists>el'. consoleLog (fst (logConsole text_of ts (Snapshot lines) cs)) = Some el'
                  \<and> length el \<le> length el'))
   \<and> logConsole text_of ts' (Snapshot lines) (fst (logConsole text_of ts (Snapshot lines) cs))
        = (fst (logConsole text_of ts (Snapshot lines) cs), [])
   \<and> lastRenderedLogCount cs
        \<le> lastRenderedLogCount (fst (logConsole text_of ts (Snapshot lines) cs))"
proof (intro conjI impI)
  show "logConsole text_of ts (Snapshot lines) cs = (cs, [])"
    if "length lines \<le> lastRenderedLogCount cs"
    using that by (rule logConsole_stale)
  show "lastRenderedLogCount cs
        \<le> lastRenderedLogCount (fst (logConsole text_of ts (Snapshot lines) cs))"
    by (simp add: logConsole_count)
  show "logConsole text_of ts' (Snapshot lines) (fst (logConsole text_of ts (Snapshot lines) cs))
        = (fst (logConsole text_of ts (Snapshot lines) cs), [])"
  proof (cases "consoleLog cs")
    case None
    then show ?thesis by (simp add: logConsole_def)
  next
    case (Some el0)
    then have "length lines
        \<le> lastRenderedLogCount (fst (logConsole text_of ts (Snapshot lines) cs))"
      by (simp add: logConsole_count)
    then show ?thesis by (rule logConsole_stale)
  qed
next
  assume h: "consoleLog cs = Some el \<and> lastRenderedLogCount cs < length lines"
  then have eq: "logConsole text_of ts (Snapshot lines) cs =
           (cs\<lparr>consoleLog :=
                 Some (fst (forEach_line text_of el (drop (lastRenderedLogCount cs) lines))),
               lastRenderedLogCount := length lines\<rparr>,
            snd (forEach_line text_of el (drop (lastRenderedLogCount cs) lines)))"
    by (simp add: logConsole_fresh)
  show "lastRenderedLogCount (fst (logConsole text_of ts (Snapshot lines) cs)) = length lines"
    by (simp add: eq)
  show "map event_line (snd (logConsole text_of ts (Snapshot lines) cs))
            = drop (lastRenderedLogCount cs) lines"
    by (simp add: eq forEach_line_events)
  show "\<exists>el'. consoleLog (fst (logConsole text_of ts (Snapshot lines) cs)) = Some el'
                  \<and> length el \<le> length el'"
    by (simp add: eq forEach_line_length)
qed

theorem snapshot_idempotence_witness:
  "logConsole (strip_tags False) ''12:00:01'' (Snapshot sample_snapshot) sample_console =
     (\<lparr>consoleLog = Some [styled ''[PIPELINE] start'', styled ''[TOKEN] Thinking... 9 tokens''],
       lastRenderedLogCount = 3\<rparr>,
      [Appended ''[TOKEN] Thinking... 5 tokens'', Replaced ''[TOKEN] Thinking... 9 tokens''])
   \<and> logConsole (strip_tags False) ''12:00:02'' (Snapshot sample_snapshot)
        (fst (logConsole (strip_tags False) ''12:00:01'' (Snapshot sample_snapshot) sample_console))
      = (fst (logConsole (strip_tags False) ''12:00:01'' (Snapshot sample_snapshot) sample_console),
         [])
   \<and> logConsole (strip_tags False) ''12:00:03'' (Snapshot [''[PIPELINE] start''])
        sample_console = (sample_console, [])
   \<and> lastRenderedLogCount
        (fst (logConsole (strip_tags False) ''12:00:01'' (Snapshot sample_snapshot) sample_console))
      = 3"
proof -
  have s1: \<open>styled ''[PIPELINE] start''
      = ''<span style="color:#818cf8; font-weight:900;">[PIPELINE]</span> start''\<close>
    by (simp add: styled_def levelColors_def colour_level_def arrow_sign_def check_sign_def
        clapper_sign_def is_digit_def)
  have s2: \<open>styled ''[TOKEN] Thinking... 5 tokens''
      = ''<span style="color:#22d3ee; font-weight:900;">[TOKEN]</span> Thinking... 5 tokens''\<close>
    by (simp add: styled_def levelColors_def colour_level_def arrow_sign_def check_sign_def
        clapper_sign_def is_digit_def)
  have run: "logConsole (strip_tags False) ''12:00:01'' (Snapshot sample_snapshot) sample_console =
     (\<lparr>consoleLog = Some [styled ''[PIPELINE] start'', styled ''[TOKEN] Thinking... 9 tokens''],
       lastRenderedLogCount = 3\<rparr>,
      [Appended ''[TOKEN] Thinking... 5 tokens'', Replaced ''[TOKEN] Thinking... 9 tokens''])"
    by (simp add: logConsole_def sample_console_def sample_snapshot_def renderStyledLine_def
        isTokenUpdate_def isShotUpdate_def s1 s2)
  have fresh: "consoleLog sample_console = Some [styled ''[PIPELINE] start'']
      \<and> lastRenderedLogCount sample_console < length sample_snapshot"
    by (simp add: sample_console_def sample_snapshot_def)
  have stale: "length [''[PIPELINE] start''] \<le> lastRenderedLogCount sample_console"
    by (simp add: sample_console_def)
  note inst = snapshot_idempotence [of sample_snapshot sample_console "strip_tags False"
      "''12:00:01''" "[styled ''[PIPELINE] start'']" "''12:00:02''"]
  from inst fresh
  have n: "lastRenderedLogCount
      (fst (logConsole (strip_tags False) ''12:00:01'' (Snapshot sample_snapshot) sample_console))
      = length sample_snapshot" by blast
  from inst have again: "logConsole (strip_tags False) ''12:00:02'' (Snapshot sample_snapshot)
        (fst (logConsole (strip_tags False) ''12:00:01'' (Snapshot sample_snapshot) sample_console))
      = (fst (logConsole (strip_tags False) ''12:00:01'' (Snapshot sample_snapshot) sample_console),
         [])" by blast
  from snapshot_idempotence [of "[''[PIPELINE] start'']" sample_console "strip_tags False"
      "''12:00:03''"] stale
  have shrunk: "logConsole (strip_tags False) ''12:00:03'' (Snapshot [''[PIPELINE] start''])
        sample_console = (sample_console, [])" by blast
  from run again shrunk n show ?thesis by (simp add: sample_snapshot_def)
qed

text \<open>
  C4. \<^verbatim>\<open>renderStyledLine\<close> writes the new line's markup into the last rendered line
  exactly when the new line is a token update or a boundary-scan update and the text
  content of the last rendered line carries the signature of the same category; in every
  other case (no rendered line yet, another category, or a different replaceable
  category) it appends a new line with that markup. This holds whatever text the browser
  makes of a line's markup. The two categories are the signatures \<^verbatim>\<open>[TOKEN]\<close> with
  \<^verbatim>\<open>Thinking...\<close> and \<^verbatim>\<open>[SHOT_DETECT]\<close> with \<^verbatim>\<open>Boundary detection at frame\<close>.
\<close>

theorem in_place_replacement:
  \<open>(container \<noteq> [] \<and> same_replaceable_category (text_of (last container)) rawLine \<longrightarrow>
      renderStyledLine text_of container rawLine
        = (butlast container @ [styled rawLine], Replaced rawLine))
   \<and> (\<not> (container \<noteq> [] \<and> same_replaceable_category (text_of (last container)) rawLine) \<longrightarrow>
      renderStyledLine text_of container rawLine
        = (container @ [styled rawLine], Appended rawLine))
   \<and> (isTokenUpdate rawLine \<longleftrightarrow>
        str_includes rawLine ''[TOKEN]'' \<and> str_includes rawLine ''Thinking...'')
   \<and> (isShotUpdate rawLine \<longleftrightarrow>
        str_includes rawLine ''[SHOT_DETECT]''
        \<and> str_includes rawLine ''Boundary detection at frame'')
   \<and> styled ''[12:00:00] [TOKEN] Thinking... 9 tokens''
        = ''<span class="ts">[12:00:00]</span> <span style="color:#22d3ee; font-weight:900;">[TOKEN]</span> Thinking... 9 tokens''\<close>
proof -
  have \<open>styled ''[12:00:00] [TOKEN] Thinking... 9 tokens''
        = ''<span class="ts">[12:00:00]</span> <span style="color:#22d3ee; font-weight:900;">[TOKEN]</span> Thinking... 9 tokens''\<close>
    by (simp add: styled_def levelColors_def colour_level_def arrow_sign_def check_sign_def
        clapper_sign_def is_digit_def)
  then show ?thesis
    by (auto simp: renderStyledLine_def same_replaceable_category_def Let_def
        isTokenUpdate_def isShotUpdate_def)
qed

theorem in_place_replacement_witness:
  \<open>renderStyledLine (strip_tags False)
       [''<span style="color:#22d3ee; font-weight:900;">[TOKEN]</span> Thin<b>king...</b> 1'']
       ''[TOKEN] Thinking... 9 tokens''
     = ([styled ''[TOKEN] Thinking... 9 tokens''], Replaced ''[TOKEN] Thinking... 9 tokens'')
   \<and> renderStyledLine (strip_tags False)
       [''<span style="color:#22d3ee; font-weight:900;">[TOKEN]</span> Thinking... 5 tokens'']
       ''[SHOT_DETECT] Boundary detection at frame 40''
     = ([''<span style="color:#22d3ee; font-weight:900;">[TOKEN]</span> Thinking... 5 tokens'',
         styled ''[SHOT_DETECT] Boundary detection at frame 40''],
        Appended ''[SHOT_DETECT] Boundary detection at frame 40'')
   \<and> renderStyledLine (strip_tags False) [] ''[TOKEN] Thinking... 1 token''
     = ([styled ''[TOKEN] Thinking... 1 token''], Appended ''[TOKEN] Thinking... 1 token'')\<close>
proof -
  let ?marked = \<open>''<span style="color:#22d3ee; font-weight:900;">[TOKEN]</span> Thin<b>king...</b> 1''\<close>
  let ?token = \<open>''<span style="color:#22d3ee; font-weight:900;">[TOKEN]</span> Thinking... 5 tokens''\<close>
  have same: "[?marked] \<noteq> []
      \<and> same_replaceable_category (strip_tags False (last [?marked]))
           ''[TOKEN] Thinking... 9 tokens''"
    by (simp add: same_replaceable_category_def isTokenUpdate_def isShotUpdate_def)
  have other: "\<not> ([?token] \<noteq> []
      \<and> same_replaceable_category (strip_tags False (last [?token]))
           ''[SHOT_DETECT] Boundary detection at frame 40'')"
    by (simp add: same_replaceable_category_def isTokenUpdate_def isShotUpdate_def)
  have first: "\<not> (([]::string list) \<noteq> []
      \<and> same_replaceable_category (strip_tags False (last [])) ''[TOKEN] Thinking... 1 token'')"
    by simp
  from in_place_replacement [of "[?marked]" "strip_tags False" "''[TOKEN] Thinking... 9 tokens''"]
    same
  have a: "renderStyledLine (strip_tags False) [?marked] ''[TOKEN] Thinking... 9 tokens''
     = (butlast [?marked] @ [styled ''[TOKEN] Thinking... 9 tokens''],
        Replaced ''[TOKEN] Thinking... 9 tokens'')"
    by blast
  from in_place_replacement
         [of "[?token]" "strip_tags False" "''[SHOT_DETECT] Boundary detection at frame 40''"] other
  have b: "renderStyledLine (strip_tags False) [?token]
       ''[SHOT_DETECT] Boundary detection at frame 40''
     = ([?token] @ [styled ''[SHOT_DETECT] Boundary detection at frame 40''],
        Appended ''[SHOT_DETECT] Boundary detection at frame 40'')"
    by blast
  from in_place_replacement [of "[]" "strip_tags False" "''[TOKEN] Thinking... 1 token''"] first
  have c: "renderStyledLine (strip_tags False) [] ''[TOKEN] Thinking... 1 token''
     = ([] @ [styled ''[TOKEN] Thinking... 1 token''], Appended ''[TOKEN] Thinking... 1 token'')"
    by blast
  from a b c show ?thesis by simp
qed


section \<open>The poll loop: properties\<close>

lemma to_double_binade:
  assumes "2 powr (of_int e) \<le> \<bar>x\<bar>" and "\<bar>x\<bar> < 2 powr (of_int e + 1)"
  shows "to_double x =
           2 powr (of_int e - 52) * of_int (round_half_even (x / 2 powr (of_int e - 52)))"
proof -
  have pos: "0 < \<bar>x\<bar>"
  proof -
    have "0 < (2::real) powr (of_int e)" by simp
    with assms(1) show ?thesis by linarith
  qed
  then have "\<lfloor>log 2 \<bar>x\<bar>\<rfloor> = e"
    using assms by (simp add: floor_log_eq_powr_iff)
  moreover have "x \<noteq> 0" using pos by auto
  ultimately show ?thesis by (simp add: to_double_def Let_def)
qed

lemma js_percent_1_4: "js_percent 1 4 = 25"
proof -
  have q: "to_double (1 / 4) = 1 / 4"
    using to_double_binade [of "-2" "1 / 4"]
    by (simp add: powr_minus round_half_even_def powr_numeral divide_simps)
  have p: "to_double 25 = 25"
    using to_double_binade [of 4 25]
    by (simp add: powr_minus round_half_even_def powr_numeral divide_simps)
  show ?thesis by (simp add: js_percent_def q p)
qed

lemma js_percent_1_3: "js_percent 1 3 = 2345624805922133 / 2 ^ 46"
proof -
  have q: "to_double (1 / 3) = 6004799503160661 / 2 ^ 54"
    using to_double_binade [of "-2" "1 / 3"]
    by (simp add: powr_minus round_half_even_def powr_numeral divide_simps)
  have p: "to_double (6004799503160661 / 2 ^ 54 * 100) = 2345624805922133 / 2 ^ 46"
    using to_double_binade [of 5 "6004799503160661 / 2 ^ 54 * 100"]
    by (simp add: powr_minus round_half_even_def powr_numeral divide_simps)
  have "js_percent 1 3 = to_double (to_double (1 / 3) * 100)"
    by (simp add: js_percent_def)
  also have "\<dots> = to_double (6004799503160661 / 2 ^ 54 * 100)"
    by (simp only: q)
  also have "\<dots> = 2345624805922133 / 2 ^ 46"
    by (rule p)
  finally show ?thesis .
qed

lemma progress_of_append: "progress_of (xs @ ys) = progress_of xs @ progress_of ys"
  by (induction xs rule: progress_of.induct) simp_all

lemma progress_of_Rendered: "progress_of (map Rendered evs) = []"
  by (induction evs) simp_all

lemma progress_of_progress_update:
  "progress_of (progress_update st) =
     (if truthy_num (step st) \<and> truthy_num (total_steps st)
      then [js_percent (the_default 0 (step st)) (the_default 0 (total_steps st))]
      else [])"
  by (simp add: progress_update_def Let_def)

lemma progress_of_poll_tick:
  "interval m = Some taskId \<Longrightarrow>
   progress_of (snd (poll_tick text_of ts (PollOk st) m)) = progress_of (progress_update st)"
  by (simp add: poll_tick_def Let_def progress_of_append progress_of_Rendered
      split: prod.splits option.splits)

text \<open>
  C5 as stated fails: a response with total 0 (or with step 0) makes the tick emit no
  progress notification at all; it does not report 0.
\<close>

theorem progress_counterexample:
  "progress_of (snd (poll_tick (strip_tags False) ''12:00:00'' (PollOk progress_zero_total)
      sample_manager)) = []
   \<and> progress_of (snd (poll_tick (strip_tags False) ''12:00:00'' (PollOk progress_zero_total)
      sample_manager)) \<noteq> [0]
   \<and> progress_of (snd (poll_tick (strip_tags False) ''12:00:00'' (PollOk progress_zero_step)
      sample_manager)) = []"
  by (simp add: progress_of_poll_tick [of _ "''t1''"] progress_of_progress_update
      sample_manager_def progress_zero_total_def progress_zero_step_def mk_status_def
      truthy_num_def)

text \<open>
  C5 as amended. On a poll tick (timer running) whose response carries a step and a total
  that are both non-zero, the tick emits exactly one progress notification; its value is
  the percentage as JavaScript computes it, the quotient of step by total rounded to a
  double, times 100, rounded to a double (for step and total of magnitude up to
  \<open>2 ^ 53\<close>, which are doubles themselves). Step 1 of total 4 gives exactly 25; step 1 of
  total 3 gives the double next to 100/3, not 100/3. When step or total is missing or 0
  the tick emits no progress notification, so nothing is divided by zero.
\<close>

theorem progress_computation:
  "(interval m = Some taskId \<longrightarrow>
     (step st = Some a \<and> total_steps st = Some b \<and> a \<noteq> 0 \<and> b \<noteq> 0 \<longrightarrow>
        length (progress_of (snd (poll_tick text_of ts (PollOk st) m))) = 1
        \<and> (\<bar>a\<bar> \<le> 2 ^ 53 \<and> \<bar>b\<bar> \<le> 2 ^ 53 \<longrightarrow>
             progress_of (snd (poll_tick text_of ts (PollOk st) m))
               = [to_double (to_double (real_of_int a / real_of_int b) * 100)]))
     \<and> (step st = None \<or> step st = Some 0 \<or> total_steps st = None \<or> total_steps st = Some 0 \<longrightarrow>
        progress_of (snd (poll_tick text_of ts (PollOk st) m)) = []))
   \<and> to_double (to_double (1 / 4) * 100) = 25
     \<and> to_double (to_double (1 / 3) * 100) = 2345624805922133 / 2 ^ 46
     \<and> to_double (to_double (1 / 3) * 100) \<noteq> 100 / 3"
proof -
  have a: "to_double (to_double (1 / 4) * 100) = 25"
    using js_percent_1_4 by (simp add: js_percent_def)
  have b: "to_double (to_double (1 / 3) * 100) = 2345624805922133 / 2 ^ 46"
    using js_percent_1_3 by (simp add: js_percent_def)
  have c: "to_double (to_double (1 / 3) * 100) \<noteq> 100 / 3"
    unfolding b by simp
  show ?thesis
    using a b c
    by (auto simp: progress_of_poll_tick progress_of_progress_update truthy_num_def
        the_default_def js_percent_def)
qed

theorem progress_computation_witness:
  "progress_of (snd (poll_tick (strip_tags False) ''12:00:00'' (PollOk progress_1_of_4)
      sample_manager)) = [25]
   \<and> progress_of (snd (poll_tick (strip_tags False) ''12:00:00'' (PollOk progress_1_of_3)
      sample_manager)) = [2345624805922133 / 2 ^ 46]
   \<and> progress_of (snd (poll_tick (strip_tags False) ''12:00:00'' (PollOk progress_zero_total)
      sample_manager)) = []"
proof -
  have m: "interval sample_manager = Some ''t1''"
    by (simp add: sample_manager_def)
  have s1: "step progress_1_of_4 = Some 1 \<and> total_steps progress_1_of_4 = Some 4
      \<and> (1::int) \<noteq> 0 \<and> (4::int) \<noteq> 0"
    by (simp add: progress_1_of_4_def mk_status_def)
  have s3: "step progress_1_of_3 = Some 1 \<and> total_steps progress_1_of_3 = Some 3
      \<and> (1::int) \<noteq> 0 \<and> (3::int) \<noteq> 0"
    by (simp add: progress_1_of_3_def mk_status_def)
  have small: "\<bar>1::int\<bar> \<le> 2 ^ 53 \<and> \<bar>4::int\<bar> \<le> 2 ^ 53 \<and> \<bar>3::int\<bar> \<le> 2 ^ 53"
    by simp
  have s0: "step progress_zero_total = None \<or> step progress_zero_total = Some 0
      \<or> total_steps progress_zero_total = None \<or> total_steps progress_zero_total = Some 0"
    by (simp add: progress_zero_total_def mk_status_def)
  note at_4 = progress_computation [of sample_manager "''t1''" progress_1_of_4 1 4
      "strip_tags False" "''12:00:00''"]
  note at_3 = progress_computation [of sample_manager "''t1''" progress_1_of_3 1 3
      "strip_tags False" "''12:00:00''"]
  note at_0 = progress_computation [of sample_manager "''t1''" progress_zero_total _ _
      "strip_tags False" "''12:00:00''"]
  from at_4 m s1 small
  have a: "progress_of (snd (poll_tick (strip_tags False) ''12:00:00'' (PollOk progress_1_of_4)
      sample_manager)) = [to_double (to_double (real_of_int 1 / real_of_int 4) * 100)]"
    by blast
  from at_4 m have a': "to_double (to_double (1 / 4) * 100) = 25" by blast
  from at_3 m s3 small
  have b: "progress_of (snd (poll_tick (strip_tags False) ''12:00:00'' (PollOk progress_1_of_3)
      sample_manager)) = [to_double (to_double (real_of_int 1 / real_of_int 3) * 100)]"
    by blast
  from at_3 m have b': "to_double (to_double (1 / 3) * 100) = 2345624805922133 / 2 ^ 46"
    by blast
  from at_0 m s0
  have c: "progress_of (snd (poll_tick (strip_tags False) ''12:00:00'' (PollOk progress_zero_total)
      sample_manager)) = []"
    by blast
  from a a' b b' c show ?thesis by simp
qed

lemma poll_tick_interval:
  "interval (fst (poll_tick text_of ts r m)) = (if terminal_response r then None else interval m)"
  by (auto simp: poll_tick_def terminal_response_def Let_def
      split: option.splits poll_result.splits prod.splits)

lemma polls_of_append: "polls_of (xs @ ys) = polls_of xs + polls_of ys"
  by (induction xs rule: polls_of.induct) simp_all

lemma polls_of_Rendered: "polls_of (map Rendered evs) = 0"
  by (induction evs) simp_all

lemma polls_of_progress_update: "polls_of (progress_update st) = 0"
  by (simp add: progress_update_def Let_def)

lemma polls_of_poll_tick:
  "polls_of (snd (poll_tick text_of ts r m)) = (if interval m = None then 0 else 1)"
  by (auto simp: poll_tick_def Let_def polls_of_append polls_of_Rendered polls_of_progress_update
      split: option.splits poll_result.splits prod.splits)

lemma handleAbort_interval: "interval (fst (handleAbort text_of ts failure m)) = interval m"
  by (simp add: handleAbort_def split: option.splits prod.splits)

lemma polls_of_handleAbort: "polls_of (snd (handleAbort text_of ts failure m)) = 0"
  by (simp add: handleAbort_def polls_of_append polls_of_Rendered split: option.splits prod.splits)

lemma run_Cons:
  "run text_of m (i # rest) =
     (fst (run text_of (fst (handle_input text_of i m)) rest),
      snd (handle_input text_of i m) @ snd (run text_of (fst (handle_input text_of i m)) rest))"
  by (simp split: prod.splits)

lemma run_stopped:
  "interval m = None \<Longrightarrow> interval (fst (run text_of m inputs)) = None \<and> polls_of (snd (run text_of m inputs)) = 0"
proof (induction inputs arbitrary: m)
  case Nil
  then show ?case by simp
next
  case (Cons i rest)
  have "interval (fst (handle_input text_of i m)) = None"
    using Cons.prems
    by (cases i) (simp_all add: handle_input_def poll_tick_interval handleAbort_interval)
  moreover have "polls_of (snd (handle_input text_of i m)) = 0"
    using Cons.prems
    by (cases i) (simp_all add: handle_input_def polls_of_poll_tick polls_of_handleAbort)
  ultimately show ?case
    using Cons.IH [of "fst (handle_input text_of i m)"]
    by (simp add: run_Cons polls_of_append del: run.simps)
qed

lemma run_polling:
  "interval m = Some taskId \<Longrightarrow>
   interval (fst (run text_of m inputs)) = (if \<exists>i \<in> set inputs. terminal_input i then None else Some taskId)
   \<and> polls_of (snd (run text_of m inputs)) = polls_expected inputs"
proof (induction inputs arbitrary: m)
  case Nil
  then show ?case by simp
next
  case (Cons i rest)
  show ?case
  proof (cases i)
    case (AbortClick ts failure)
    have keep: "interval (fst (handle_input text_of i m)) = Some taskId"
      using Cons.prems by (simp add: AbortClick handle_input_def handleAbort_interval)
    have none: "polls_of (snd (handle_input text_of i m)) = 0"
      by (simp add: AbortClick handle_input_def polls_of_handleAbort)
    from Cons.IH [OF keep] none show ?thesis
      by (simp add: run_Cons polls_of_append AbortClick del: run.simps)
  next
    case (TimerTick ts r)
    have one: "polls_of (snd (handle_input text_of i m)) = 1"
      using Cons.prems by (simp add: TimerTick handle_input_def polls_of_poll_tick)
    show ?thesis
    proof (cases "terminal_response r")
      case True
      then have "interval (fst (handle_input text_of i m)) = None"
        by (simp add: TimerTick handle_input_def poll_tick_interval)
      from run_stopped [OF this] one True show ?thesis
        by (simp add: run_Cons polls_of_append TimerTick del: run.simps)
    next
      case False
      then have keep: "interval (fst (handle_input text_of i m)) = Some taskId"
        using Cons.prems by (simp add: TimerTick handle_input_def poll_tick_interval)
      from Cons.IH [OF keep] one False show ?thesis
        by (simp add: run_Cons polls_of_append TimerTick del: run.simps)
    qed
  qed
qed

text \<open>
  C6. With the timer running: after any sequence of timer ticks and abort clicks the timer
  is cleared exactly if one of the ticks brought a response with state SUCCESS or FAILURE;
  the polls issued are the ticks up to and including the first such response, so none is
  issued after it and every tick before it polls; any other response leaves the timer
  running; an abort click (whether the abort request succeeds or fails) leaves it running;
  a tick whose request fails changes nothing and only warns. The length of the delay
  between ticks is not part of the model.
\<close>

theorem polling_stops_at_terminal:
  "interval m = Some taskId \<longrightarrow>
     (interval (fst (run text_of m inputs)) = None \<longleftrightarrow> (\<exists>i \<in> set inputs. terminal_input i))
     \<and> polls_of (snd (run text_of m inputs)) = polls_expected inputs
     \<and> (\<not> terminal_response r \<longrightarrow> interval (fst (poll_tick text_of ts r m)) = Some taskId)
     \<and> (terminal_response r \<longrightarrow> interval (fst (poll_tick text_of ts r m)) = None)
     \<and> interval (fst (handleAbort text_of ts failure m)) = Some taskId
     \<and> poll_tick text_of ts PollFailed m = (m, [PollTaskStatus taskId, ConsoleWarn])"
proof
  assume m: "interval m = Some taskId"
  from run_polling [OF m, of text_of inputs] m show
    "(interval (fst (run text_of m inputs)) = None \<longleftrightarrow> (\<exists>i \<in> set inputs. terminal_input i))
     \<and> polls_of (snd (run text_of m inputs)) = polls_expected inputs
     \<and> (\<not> terminal_response r \<longrightarrow> interval (fst (poll_tick text_of ts r m)) = Some taskId)
     \<and> (terminal_response r \<longrightarrow> interval (fst (poll_tick text_of ts r m)) = None)
     \<and> interval (fst (handleAbort text_of ts failure m)) = Some taskId
     \<and> poll_tick text_of ts PollFailed m = (m, [PollTaskStatus taskId, ConsoleWarn])"
    by (simp add: poll_tick_interval handleAbort_interval) (simp add: poll_tick_def)
qed

theorem polling_stops_at_terminal_witness:
  "interval (fst (run (strip_tags False) sample_manager inputs_to_success)) = None
   \<and> polls_of (snd (run (strip_tags False) sample_manager inputs_to_success)) = 4
   \<and> interval (fst (run (strip_tags False) sample_manager inputs_after_abort)) = Some ''t1''
   \<and> polls_of (snd (run (strip_tags False) sample_manager inputs_after_abort)) = 2"
proof -
  have m: "interval sample_manager = Some ''t1''"
    by (simp add: sample_manager_def)
  have t: "\<exists>i \<in> set inputs_to_success. terminal_input i"
    by (simp add: inputs_to_success_def terminal_response_def succeeded_def mk_status_def)
  have n: "\<not> (\<exists>i \<in> set inputs_after_abort. terminal_input i)"
    by (simp add: inputs_after_abort_def terminal_response_def still_running_def mk_status_def)
  have e1: "polls_expected inputs_to_success = 4"
    by (simp add: inputs_to_success_def terminal_response_def succeeded_def still_running_def
        progress_1_of_4_def mk_status_def)
  have e2: "polls_expected inputs_after_abort = 2"
    by (simp add: inputs_after_abort_def terminal_response_def still_running_def mk_status_def)
  from polling_stops_at_terminal [of sample_manager "''t1''" "strip_tags False" inputs_to_success] m t e1
  have a: "interval (fst (run (strip_tags False) sample_manager inputs_to_success)) = None
      \<and> polls_of (snd (run (strip_tags False) sample_manager inputs_to_success)) = 4" by simp
  from polling_stops_at_terminal [of sample_manager "''t1''" "strip_tags False" inputs_after_abort] m n e2
  have b: "interval (fst (run (strip_tags False) sample_manager inputs_after_abort)) \<noteq> None
      \<and> polls_of (snd (run (strip_tags False) sample_manager inputs_after_abort)) = 2" by simp
  have c: "interval (fst (run (strip_tags False) sample_manager inputs_after_abort)) = Some ''t1''"
    using run_polling [OF m, of "strip_tags False" inputs_after_abort] n by simp
  from a b c show ?thesis by simp
qed




section \<open>Terminal failure: properties\<close>

lemma rendered_lines_append: "rendered_lines (xs @ ys) = rendered_lines xs @ rendered_lines ys"
  by (induction xs rule: rendered_lines.induct) simp_all

lemma rendered_lines_Rendered: "rendered_lines (map Rendered evs) = map event_line evs"
  by (induction evs) simp_all

lemma rendered_lines_progress_update: "rendered_lines (progress_update st) = []"
  by (simp add: progress_update_def Let_def)

lemma renderStyledLine_last:
  "fst (renderStyledLine text_of c l) \<noteq> [] \<and> last (fst (renderStyledLine text_of c l)) = styled l"
  by (simp add: renderStyledLine_def Let_def)

lemma logConsole_message:
  "consoleLog cs = Some el \<Longrightarrow>
   logConsole text_of ts (Message txt) cs =
     (cs\<lparr>consoleLog := Some (fst (renderStyledLine text_of el (finalLine ts txt)))\<rparr>,
      [snd (renderStyledLine text_of el (finalLine ts txt))])"
  by (simp add: logConsole_def split: prod.splits)

lemma logConsole_keeps_console:
  "consoleLog cs = Some el \<Longrightarrow>
   \<exists>el'. consoleLog (fst (logConsole text_of ts content cs)) = Some el'"
  by (auto simp: logConsole_def Let_def split: option.splits log_content.splits prod.splits)

lemma log_status_keeps_console:
  "consoleLog cs = Some el \<Longrightarrow> \<exists>el'. consoleLog (fst (log_status text_of ts st cs)) = Some el'"
  unfolding log_status_def using logConsole_keeps_console [of cs el text_of] by auto

lemma poll_tick_failure:
  assumes "interval m = Some taskId" and "state st = Some ''FAILURE''"
  shows "poll_tick text_of ts (PollOk st) m =
     (m\<lparr>ui := fst (logConsole text_of ts (Message (stopped_message st))
                     (fst (log_status text_of ts st (ui m)))),
        interval := None\<rparr>,
      [PollTaskStatus taskId] @ map Rendered (snd (log_status text_of ts st (ui m)))
        @ progress_update st
        @ map Rendered (snd (logConsole text_of ts (Message (stopped_message st))
                               (fst (log_status text_of ts st (ui m))))))"
  using assms by (simp add: poll_tick_def Let_def split: prod.splits)

lemma no_submission_in_progress_update: "TriggerInferenceApi \<notin> set (progress_update st)"
  by (simp add: progress_update_def Let_def)

text \<open>
  C7 as stated fails: for the status text \<^verbatim>\<open>boom\<close> the line surfaced on FAILURE is
  \<^verbatim>\<open>[12:00:00] [CLIENT] [STOPPED] boom\<close>, not the status text itself.
\<close>

theorem failure_message_counterexample:
  "rendered_lines (snd (poll_tick (strip_tags False) ''12:00:00'' (PollOk failed_boom)
      sample_manager))
     = [''[PIPELINE] start'', ''[12:00:00] [CLIENT] [STOPPED] boom'']
   \<and> status failed_boom = JsString ''boom''
   \<and> last (rendered_lines (snd (poll_tick (strip_tags False) ''12:00:00'' (PollOk failed_boom)
        sample_manager)))
       \<noteq> ''boom''"
  by (simp add: poll_tick_def log_status_def logConsole_def renderStyledLine_def finalLine_def
      hasLevelTag_def isTokenUpdate_def isShotUpdate_def progress_update_def truthy_num_def
      truthy_text_def template_def the_default_def sample_manager_def failed_boom_def
      stopped_message_def mk_status_def)

text \<open>
  C7 as amended. When a poll response reports FAILURE and carries a status text (timer
  running, console in the page), the last line the tick renders is the message
  \<^verbatim>\<open>[STOPPED] \<close> followed by the status text as it is, behind the timestamp and, unless
  the message carries a level tag, the tag \<^verbatim>\<open>[CLIENT]\<close>; the last child of the console
  holds the markup of that line; the timer is cleared and the tick submits no job.
\<close>

theorem failure_message:
  "interval m = Some taskId \<and> consoleLog (ui m) = Some el \<and> state st = Some ''FAILURE''
     \<and> status st = JsString txt \<and> txt \<noteq> [] \<longrightarrow>
     interval (fst (poll_tick text_of ts (PollOk st) m)) = None
     \<and> rendered_lines (snd (poll_tick text_of ts (PollOk st) m)) \<noteq> []
     \<and> last (rendered_lines (snd (poll_tick text_of ts (PollOk st) m)))
         = ''['' @ ts @ ''] ''
           @ (if hasLevelTag (''[STOPPED] '' @ txt) then [] else ''[CLIENT] '')
           @ ''[STOPPED] '' @ txt
     \<and> (\<exists>el'. consoleLog (ui (fst (poll_tick text_of ts (PollOk st) m))) = Some el' \<and> el' \<noteq> []
            \<and> last el' = styled (last (rendered_lines (snd (poll_tick text_of ts (PollOk st) m)))))
     \<and> TriggerInferenceApi \<notin> set (snd (poll_tick text_of ts (PollOk st) m))"
proof
  assume h: "interval m = Some taskId \<and> consoleLog (ui m) = Some el \<and> state st = Some ''FAILURE''
     \<and> status st = JsString txt \<and> txt \<noteq> []"
  let ?msg = "stopped_message st"
  let ?ui1 = "fst (log_status text_of ts st (ui m))"
  from h obtain el1 where el1: "consoleLog ?ui1 = Some el1"
    using log_status_keeps_console [of "ui m" el text_of ts st] by blast
  note tick = poll_tick_failure [of m taskId st text_of ts]
  note msg = logConsole_message [OF el1, of text_of ts ?msg]
  have line: "finalLine ts ?msg = ''['' @ ts @ ''] ''
           @ (if hasLevelTag (''[STOPPED] '' @ txt) then [] else ''[CLIENT] '')
           @ ''[STOPPED] '' @ txt"
    using h by (simp add: finalLine_def stopped_message_def template_def)
  have lines: "rendered_lines (snd (poll_tick text_of ts (PollOk st) m))
      = map event_line (snd (log_status text_of ts st (ui m))) @ [finalLine ts ?msg]"
    using h by (simp add: tick msg rendered_lines_append rendered_lines_Rendered
        rendered_lines_progress_update renderStyledLine_event)
  have console: "consoleLog (ui (fst (poll_tick text_of ts (PollOk st) m)))
      = Some (fst (renderStyledLine text_of el1 (finalLine ts ?msg)))"
    using h by (simp add: tick msg)
  have nosub: "TriggerInferenceApi \<notin> set (snd (poll_tick text_of ts (PollOk st) m))"
    using h by (auto simp: tick no_submission_in_progress_update)
  have stop: "interval (fst (poll_tick text_of ts (PollOk st) m)) = None"
    using h by (simp add: tick)
  show "interval (fst (poll_tick text_of ts (PollOk st) m)) = None
     \<and> rendered_lines (snd (poll_tick text_of ts (PollOk st) m)) \<noteq> []
     \<and> last (rendered_lines (snd (poll_tick text_of ts (PollOk st) m)))
         = ''['' @ ts @ ''] ''
           @ (if hasLevelTag (''[STOPPED] '' @ txt) then [] else ''[CLIENT] '')
           @ ''[STOPPED] '' @ txt
     \<and> (\<exists>el'. consoleLog (ui (fst (poll_tick text_of ts (PollOk st) m))) = Some el' \<and> el' \<noteq> []
            \<and> last el' = styled (last (rendered_lines (snd (poll_tick text_of ts (PollOk st) m)))))
     \<and> TriggerInferenceApi \<notin> set (snd (poll_tick text_of ts (PollOk st) m))"
    unfolding lines console using stop nosub line
    by (simp add: renderStyledLine_last)
qed

theorem failure_message_witness:
  "interval (fst (poll_tick (strip_tags False) ''12:00:00'' (PollOk failed_boom) sample_manager))
     = None
   \<and> last (rendered_lines (snd (poll_tick (strip_tags False) ''12:00:00'' (PollOk failed_boom)
        sample_manager)))
       = ''[12:00:00] [CLIENT] [STOPPED] boom''
   \<and> TriggerInferenceApi
       \<notin> set (snd (poll_tick (strip_tags False) ''12:00:00'' (PollOk failed_boom) sample_manager))"
proof -
  have h: "interval sample_manager = Some ''t1'' \<and> consoleLog (ui sample_manager) = Some []
      \<and> state failed_boom = Some ''FAILURE'' \<and> status failed_boom = JsString ''boom''
      \<and> ''boom'' \<noteq> []"
    by (simp add: sample_manager_def failed_boom_def mk_status_def)
  have tag: "\<not> hasLevelTag (''[STOPPED] '' @ ''boom'')"
    by (simp add: hasLevelTag_def)
  from failure_message [of sample_manager "''t1''" "[]" failed_boom "''boom''" "strip_tags False"
      "''12:00:00''"] h
  show ?thesis using tag by simp
qed


section \<open>Navigation: properties\<close>

lemma skip_target_clamp:
  "results \<noteq> [] \<Longrightarrow>
   max 0 (min (cursor + offset) (int (length results) - 1))
     = clamp (cursor + offset) 0 (int (length results) - 1)"
  by (cases results) (auto simp: clamp_def)

lemma findIndex_from_own_start:
  "ordered_shots xs \<Longrightarrow> k < length xs \<Longrightarrow>
   findIndex_from (under_playhead (start_time (xs ! k))) xs i = i + int k"
proof (induction xs arbitrary: k i)
  case Nil
  then show ?case by simp
next
  case (Cons s rest)
  show ?case
  proof (cases k)
    case 0
    with Cons.prems show ?thesis by (simp add: under_playhead_def)
  next
    case (Suc j)
    with Cons.prems have j: "j < length rest" by simp
    then have "rest ! j \<in> set rest" by simp
    with Cons.prems have "end_time s \<le> start_time (rest ! j)"
      by (simp add: list_all_iff)
    then have miss: "\<not> under_playhead (start_time (rest ! j)) s"
      by (simp add: under_playhead_def)
    from Cons.prems have "ordered_shots rest" by simp
    from Cons.IH [OF this j, of "i + 1"] miss Suc show ?thesis by simp
  qed
qed

lemma findActiveAt_own_start:
  "ordered_shots xs \<Longrightarrow> k < length xs \<Longrightarrow> findActiveAt xs (start_time (xs ! k)) = int k"
  by (simp add: findActiveAt_def findIndex_def findIndex_from_own_start)

text \<open>
  C8 as stated fails. Playing at shot 0 of five, a skip by -3 emits no selection-changed
  notification, and neither does the time update that follows the seek: the target is the
  shot the cursor is on already.
\<close>

theorem segment_skip_counterexample:
  "snd (skipToShot (-3) (mk_page five_shots 0 0.5 False)) = []
   \<and> snd (skipToShot_then_timeupdate (-3) (mk_page five_shots 0 0.5 False)) = []
   \<and> currentShotIndex (store (fst (skipToShot_then_timeupdate (-3)
        (mk_page five_shots 0 0.5 False)))) = 0"
  by (simp add: skipToShot_then_timeupdate_def skipToShot_def jump_to_def ontimeupdate_def
      findActiveAt_def findIndex_def under_playhead_def mk_page_def five_shots_def mk_shot_def
      initial_store_def)

text \<open>
  C8 as amended. With a player and a non-empty shot sequence of length \<open>count\<close>, a skip by
  any offset from any cursor picks the shot at index
  \<open>clamp (current + offset) 0 (count - 1)\<close>, which is always in range, moves the playhead
  to that shot's start and, if the player is paused, emits the selection-changed
  notification for that shot. For shots of positive length that do not overlap, the time
  update that follows the seek leaves the cursor at that index, with the shots unchanged,
  and emits the notification once more if the index differs from the cursor before the
  skip. So a notification is emitted when the player is paused or the index changes, and
  none when the player is playing and the index stays.
\<close>

theorem segment_skip:
  "videoPlayer pg = Some v \<and> inferenceResults (store pg) \<noteq> [] \<longrightarrow>
     0 \<le> clamp (currentShotIndex (store pg) + offset) 0 (int (length (inferenceResults (store pg))) - 1)
     \<and> clamp (currentShotIndex (store pg) + offset) 0 (int (length (inferenceResults (store pg))) - 1)
          < int (length (inferenceResults (store pg)))
     \<and> fst (skipToShot offset pg) =
          pg\<lparr>videoPlayer := Some (v\<lparr>currentTime := start_time (inferenceResults (store pg) !
             nat (clamp (currentShotIndex (store pg) + offset) 0
                    (int (length (inferenceResults (store pg))) - 1)))\<rparr>)\<rparr>
     \<and> snd (skipToShot offset pg) =
          (if paused v
           then [UpdateActiveHighlight (shot_id (inferenceResults (store pg) !
             nat (clamp (currentShotIndex (store pg) + offset) 0
                    (int (length (inferenceResults (store pg))) - 1))))]
           else [])
     \<and> (ordered_shots (inferenceResults (store pg)) \<longrightarrow>
          currentShotIndex (store (fst (skipToShot_then_timeupdate offset pg)))
            = clamp (currentShotIndex (store pg) + offset) 0
                (int (length (inferenceResults (store pg))) - 1)
          \<and> inferenceResults (store (fst (skipToShot_then_timeupdate offset pg)))
              = inferenceResults (store pg)
          \<and> snd (skipToShot_then_timeupdate offset pg) =
              (if paused v
               then [UpdateActiveHighlight (shot_id (inferenceResults (store pg) !
                 nat (clamp (currentShotIndex (store pg) + offset) 0
                        (int (length (inferenceResults (store pg))) - 1))))]
               else [])
              @ (if clamp (currentShotIndex (store pg) + offset) 0
                      (int (length (inferenceResults (store pg))) - 1)
                    \<noteq> currentShotIndex (store pg)
                 then [UpdateActiveHighlight (shot_id (inferenceResults (store pg) !
                   nat (clamp (currentShotIndex (store pg) + offset) 0
                          (int (length (inferenceResults (store pg))) - 1))))]
                 else []))"
proof
  assume h: "videoPlayer pg = Some v \<and> inferenceResults (store pg) \<noteq> []"
  let ?rs = "inferenceResults (store pg)"
  let ?c = "clamp (currentShotIndex (store pg) + offset) 0 (int (length ?rs) - 1)"
  let ?pg1 = "pg\<lparr>videoPlayer := Some (v\<lparr>currentTime := start_time (?rs ! nat ?c)\<rparr>)\<rparr>"
  let ?ev1 = "if paused v then [UpdateActiveHighlight (shot_id (?rs ! nat ?c))] else []"
  from h have len: "0 < length ?rs" by simp
  have target: "max 0 (min (currentShotIndex (store pg) + offset) (int (length ?rs) - 1)) = ?c"
    using h by (simp add: skip_target_clamp)
  have range: "0 \<le> ?c \<and> ?c < int (length ?rs)"
    using len by (auto simp: clamp_def)
  have run: "skipToShot offset pg = (?pg1, ?ev1)"
    using h len by (simp add: skipToShot_def Let_def target jump_to_def)
  have sync: "currentShotIndex (store (fst (skipToShot_then_timeupdate offset pg))) = ?c
      \<and> inferenceResults (store (fst (skipToShot_then_timeupdate offset pg))) = ?rs
      \<and> snd (skipToShot_then_timeupdate offset pg) =
          ?ev1 @ (if ?c \<noteq> currentShotIndex (store pg)
                  then [UpdateActiveHighlight (shot_id (?rs ! nat ?c))] else [])"
    if ord: "ordered_shots ?rs"
  proof -
    from range have k: "nat ?c < length ?rs" by linarith
    have found: "findActiveAt ?rs (start_time (?rs ! nat ?c)) = ?c"
      using findActiveAt_own_start [OF ord k] range by simp
    have upd: "ontimeupdate ?pg1 =
        (if ?c \<noteq> currentShotIndex (store pg)
         then (?pg1\<lparr>store := (store pg)\<lparr>currentShotIndex := ?c\<rparr>,
                    overlay := map_option
                      (\<lambda>ov. ov\<lparr>textContent := shot_id (?rs ! nat ?c), display := ''block''\<rparr>)
                      (overlay pg)\<rparr>,
               [UpdateActiveHighlight (shot_id (?rs ! nat ?c))])
         else (?pg1, []))"
      using range by (simp add: ontimeupdate_def Let_def found)
    show ?thesis
      by (simp add: skipToShot_then_timeupdate_def run upd)
  qed
  show "0 \<le> ?c \<and> ?c < int (length ?rs)
     \<and> fst (skipToShot offset pg) = ?pg1
     \<and> snd (skipToShot offset pg) = ?ev1
     \<and> (ordered_shots ?rs \<longrightarrow>
          currentShotIndex (store (fst (skipToShot_then_timeupdate offset pg))) = ?c
          \<and> inferenceResults (store (fst (skipToShot_then_timeupdate offset pg))) = ?rs
          \<and> snd (skipToShot_then_timeupdate offset pg) =
              ?ev1 @ (if ?c \<noteq> currentShotIndex (store pg)
                      then [UpdateActiveHighlight (shot_id (?rs ! nat ?c))] else []))"
    using range sync by (simp add: run)
qed

theorem segment_skip_witness:
  "snd (skipToShot (-3) (mk_page five_shots 0 0.5 True)) = [UpdateActiveHighlight ''s0'']
   \<and> snd (skipToShot_then_timeupdate (-3) (mk_page five_shots 0 0.5 True))
       = [UpdateActiveHighlight ''s0'']
   \<and> currentShotIndex (store (fst (skipToShot_then_timeupdate (-3)
        (mk_page five_shots 0 0.5 True)))) = 0
   \<and> currentShotIndex (store (fst (skipToShot_then_timeupdate 2
        (mk_page five_shots 0 0.5 False)))) = 2
   \<and> snd (skipToShot_then_timeupdate 2 (mk_page five_shots 0 0.5 False))
       = [UpdateActiveHighlight ''s2'']"
proof -
  let ?paused = "mk_page five_shots 0 0.5 True"
  let ?playing = "mk_page five_shots 0 0.5 False"
  have hp: "videoPlayer ?paused = Some \<lparr>currentTime = 0.5, paused = True\<rparr>
      \<and> inferenceResults (store ?paused) \<noteq> []"
    by (simp add: mk_page_def five_shots_def)
  have hq: "videoPlayer ?playing = Some \<lparr>currentTime = 0.5, paused = False\<rparr>
      \<and> inferenceResults (store ?playing) \<noteq> []"
    by (simp add: mk_page_def five_shots_def)
  have ord: "ordered_shots (inferenceResults (store ?paused))
      \<and> ordered_shots (inferenceResults (store ?playing))"
    by (simp add: mk_page_def five_shots_def mk_shot_def)
  have cp: "clamp (currentShotIndex (store ?paused) + (-3)) 0
      (int (length (inferenceResults (store ?paused))) - 1) = 0"
    by (simp add: mk_page_def five_shots_def clamp_def initial_store_def)
  have cq: "clamp (currentShotIndex (store ?playing) + 2) 0
      (int (length (inferenceResults (store ?playing))) - 1) = 2"
    by (simp add: mk_page_def five_shots_def clamp_def initial_store_def)
  have sp: "shot_id (inferenceResults (store ?paused) ! nat 0) = ''s0''"
    by (simp add: mk_page_def five_shots_def mk_shot_def)
  have sq: "shot_id (inferenceResults (store ?playing) ! nat 2) = ''s2''"
    by (simp add: mk_page_def five_shots_def mk_shot_def numeral_2_eq_2)
  have curp: "currentShotIndex (store ?paused) = 0" "currentShotIndex (store ?playing) = 0"
    by (simp_all add: mk_page_def)
  from segment_skip [of ?paused "\<lparr>currentTime = 0.5, paused = True\<rparr>" "-3"] hp ord
  have a: "snd (skipToShot (-3) ?paused) = [UpdateActiveHighlight ''s0'']
      \<and> snd (skipToShot_then_timeupdate (-3) ?paused) = [UpdateActiveHighlight ''s0'']
      \<and> currentShotIndex (store (fst (skipToShot_then_timeupdate (-3) ?paused))) = 0"
    unfolding cp sp using curp by simp
  from segment_skip [of ?playing "\<lparr>currentTime = 0.5, paused = False\<rparr>" 2] hq ord
  have b: "currentShotIndex (store (fst (skipToShot_then_timeupdate 2 ?playing))) = 2
      \<and> snd (skipToShot_then_timeupdate 2 ?playing) = [UpdateActiveHighlight ''s2'']"
    unfolding cq sq using curp by simp
  from a b show ?thesis by simp
qed

text \<open>
  C10. With no shots loaded, \<^verbatim>\<open>skipToShot\<close> and \<^verbatim>\<open>skipToScene\<close> return at once for
  every offset: the page (cursor, playhead, overlay) is unchanged and no selection-changed
  notification is emitted.
\<close>

theorem empty_sequence_noop:
  "inferenceResults (store pg) = [] \<longrightarrow>
     skipToShot offset pg = (pg, []) \<and> skipToScene offset pg = (pg, [])"
  by (simp add: skipToShot_def skipToScene_def split: option.splits)

theorem empty_sequence_noop_witness:
  "skipToShot 1 (mk_page [] (-1) 0 True) = (mk_page [] (-1) 0 True, [])
   \<and> skipToScene (-1) (mk_page [] (-1) 0 True) = (mk_page [] (-1) 0 True, [])"
proof -
  have h: "inferenceResults (store (mk_page [] (-1) 0 True)) = []"
    by (simp add: mk_page_def)
  from empty_sequence_noop [of "mk_page [] (-1) 0 True" 1] h
  have a: "skipToShot 1 (mk_page [] (-1) 0 True) = (mk_page [] (-1) 0 True, [])" by blast
  from empty_sequence_noop [of "mk_page [] (-1) 0 True" "-1"] h
  have b: "skipToScene (-1) (mk_page [] (-1) 0 True) = (mk_page [] (-1) 0 True, [])" by blast
  from a b show ?thesis by simp
qed

section \<open>Session load: the cursor\<close>

text \<open>
  C9, evaluated on the code. After the five-shot session has played into its last shot the
  cursor is 4, in range. \<^verbatim>\<open>hydrateSession\<close> then replaces the shots by the two of the
  next session and leaves the cursor at 4, out of range of the loaded sequence;
  \<^verbatim>\<open>store.reset\<close> on the same store does set the cursor to -1 with the shots emptied.
\<close>

theorem stale_cursor_after_session_load:
  "currentShotIndex store_played_a = 4
   \<and> cursor_in_range store_played_a
   \<and> inferenceResults store_after_b = two_shots
   \<and> activeSessionId store_after_b = Some ''B''
   \<and> currentShotIndex store_after_b = 4
   \<and> length (inferenceResults store_after_b) = 2
   \<and> \<not> cursor_in_range store_after_b
   \<and> currentShotIndex (reset store_played_a) = -1
   \<and> inferenceResults (reset store_played_a) = []"
  by (simp add: cursor_in_range_def store_after_b_def store_played_a_def store_after_a_def
      hydrateSession_def ontimeupdate_def findActiveAt_def findIndex_def under_playhead_def
      reset_def initial_store_def five_shots_def two_shots_def mk_shot_def)

end
